theory Spec2Isabelle
  imports Main
begin

unbundle bit_operations_syntax

section \<open>JavaScript number operations\<close>

text \<open>
  The sources are JavaScript. Every number that the modelled code handles is integer-valued
  (addresses, sizes, selectors, descriptor words), so a JavaScript number is an \<open>int\<close> here;
  the model is exact as long as magnitudes stay within the range where doubles represent
  integers exactly (up to \<open>2 ^ 53\<close>). The bitwise operators convert their operands to 32-bit
  integers first: \<open>x | 0\<close> is \<open>ToInt32\<close>, \<open>x >>> 0\<close> is \<open>ToUint32\<close>, and shift counts are
  taken modulo 32.
\<close>

definition ToInt32 :: "int \<Rightarrow> int" where
  "ToInt32 x = signed_take_bit 31 x"

definition ToUint32 :: "int \<Rightarrow> int" where
  "ToUint32 x = take_bit 32 x"

definition js_and :: "int \<Rightarrow> int \<Rightarrow> int" where
  "js_and a b = ToInt32 (ToInt32 a AND ToInt32 b)"

definition js_or :: "int \<Rightarrow> int \<Rightarrow> int" where
  "js_or a b = ToInt32 (ToInt32 a OR ToInt32 b)"

definition js_not :: "int \<Rightarrow> int" where
  "js_not a = ToInt32 (NOT (ToInt32 a))"

definition js_shl :: "int \<Rightarrow> int \<Rightarrow> int" where
  "js_shl a n = ToInt32 (push_bit (nat (ToUint32 n mod 32)) (ToInt32 a))"

definition js_sar :: "int \<Rightarrow> int \<Rightarrow> int" where
  "js_sar a n = drop_bit (nat (ToUint32 n mod 32)) (ToInt32 a)"

definition js_shr :: "int \<Rightarrow> int \<Rightarrow> int" where
  "js_shr a n = drop_bit (nat (ToUint32 n mod 32)) (ToUint32 a)"

text \<open>\<open>a % b\<close>: the remainder takes the sign of the dividend.\<close>

definition js_rem :: "int \<Rightarrow> int \<Rightarrow> int" where
  "js_rem a b = sgn a * (\<bar>a\<bar> mod \<bar>b\<bar>)"

text \<open>\<open>(a / b) | 0\<close> on integers: the quotient truncated towards zero, then \<open>ToInt32\<close>.\<close>

definition js_quot32 :: "int \<Rightarrow> int \<Rightarrow> int" where
  "js_quot32 a b = ToInt32 (sgn a * sgn b * (\<bar>a\<bar> div \<bar>b\<bar>))"

text \<open>\<open>Math.log2(n) | 0\<close> for a positive integer \<open>n\<close>.\<close>

fun log2_floor :: "nat \<Rightarrow> nat" where
  "log2_floor n = (if n < 2 then 0 else Suc (log2_floor (n div 2)))"

declare log2_floor.simps [simp del]

text \<open>Run-time errors of the host language.\<close>

datatype js_error = TypeError | RangeError | BreakException

section \<open>Memory blocks\<close>

text \<open>
  Modelled from the spec: the \<open>Memory\<close> class is not among the sources. A block has a type,
  a starting address, a size, its stored values, a dirty flag, and two groups of slots,
  \<open>(readData, readPrev, readTrap, nReadTraps)\<close> and \<open>(writeData, writePrev, writeTrap,
  nWriteTraps)\<close>. A slot that holds a function is either the block's own accessor
  (\<open>Native\<close>) or the wrapper closure that the bus installs (\<open>TrapWrapper\<close>); \<open>None\<close> is
  \<open>undefined\<close>. Trap callbacks are identified by values of type \<open>'f\<close> (function identity).
  Device identifiers are labels only and are left out.
\<close>

datatype memory_type = TYPE_NONE | TYPE_ROM | TYPE_RAM | TYPE_VIDEO

datatype accessor = Native | TrapWrapper

record 'f memory =
  mtype :: memory_type
  addr :: "int option"
  msize :: int
  mvalues :: "int list"
  dirty :: bool
  readData :: accessor
  readPrev :: "accessor option"
  readTrap :: "'f option"
  nReadTraps :: nat
  writeData :: accessor
  writePrev :: "accessor option"
  writeTrap :: "'f option"
  nWriteTraps :: nat

text \<open>
  Modelled from the spec: \<open>new Memory(..., {type, addr, size, values})\<close>. A missing type is
  \<open>NONE\<close>; missing values are a zero-filled array of the block's size.
\<close>

definition new_Memory ::
  "memory_type option \<Rightarrow> int option \<Rightarrow> int \<Rightarrow> int list option \<Rightarrow> 'f memory" where
  "new_Memory ty a sz vals =
     \<lparr> mtype = (case ty of None \<Rightarrow> TYPE_NONE | Some t \<Rightarrow> t),
       addr = a,
       msize = sz,
       mvalues = (case vals of None \<Rightarrow> replicate (nat sz) 0 | Some vs \<Rightarrow> vs),
       dirty = False,
       readData = Native, readPrev = None, readTrap = None, nReadTraps = 0,
       writeData = Native, writePrev = None, writeTrap = None, nWriteTraps = 0 \<rparr>"

text \<open>
  Modelled from the spec: the block's own accessors. Reading a \<open>NONE\<close> block gives the
  sentinel (all ones of the default 8-bit data width), reading any other block gives the
  stored value (\<open>undefined\<close>, here \<open>None\<close>, outside the array). A write is stored, and
  marks the block dirty, on RAM and video blocks only; it is dropped on \<open>NONE\<close> and ROM.
\<close>

definition memory_readNative :: "'f memory \<Rightarrow> int \<Rightarrow> int option" where
  "memory_readNative b off =
     (if mtype b = TYPE_NONE then Some 255
      else if 0 \<le> off \<and> nat off < length (mvalues b) then Some (mvalues b ! nat off)
      else None)"

definition memory_writeNative :: "'f memory \<Rightarrow> int \<Rightarrow> int \<Rightarrow> 'f memory" where
  "memory_writeNative b off v =
     (if (mtype b = TYPE_RAM \<or> mtype b = TYPE_VIDEO) \<and> 0 \<le> off \<and> nat off < length (mvalues b)
      then b\<lparr>mvalues := (mvalues b)[nat off := v], dirty := True\<rparr>
      else b)"

section \<open>The bus\<close>

text \<open>
  \<open>bus.js\<close>, class \<open>Bus\<close>. The block table \<open>blocks\<close> holds references to \<open>Memory\<close>
  objects; several indices can hold the same object (the shared \<open>NONE\<close> block), and the
  trap functions mutate the object, so the objects live in an explicit store \<open>heap\<close>
  (reference to object) with \<open>nextRef\<close> the next unused reference. A table entry \<open>None\<close>
  is an array hole.
\<close>

type_synonym ref = nat

record 'f bus =
  addrWidth :: nat
  dataWidth :: nat
  addrTotal :: int
  addrLimit :: int
  blockSize :: int
  blockTotal :: int
  blockShift :: int
  blockLimit :: int
  blocks :: "ref option list"
  heap :: "ref \<Rightarrow> 'f memory"
  nextRef :: ref

definition alloc :: "'f memory \<Rightarrow> 'f bus \<Rightarrow> ref \<times> 'f bus" where
  "alloc m bus = (nextRef bus, bus\<lparr>heap := (heap bus)(nextRef bus := m), nextRef := Suc (nextRef bus)\<rparr>)"

text \<open>\<open>Array.prototype.slice(start, end)\<close>.\<close>

definition js_slice :: "'a list \<Rightarrow> int \<Rightarrow> int \<Rightarrow> 'a list" where
  "js_slice xs s e =
     (let n = int (length xs);
          s' = (if s < 0 then max (n + s) 0 else min s n);
          e' = (if e < 0 then max (n + e) 0 else min e n)
      in take (nat (e' - s')) (drop (nat s') xs))"

text \<open>
  \<open>addBlocks(addr, size, type, block)\<close>, lines 104-149. \<open>addBlocks_blockNew\<close> is the
  statement that chooses \<open>blockNew\<close> (lines 123-141): a fresh block when none is given, the
  given block when its size is the bus's block size, and otherwise a fresh block with
  the matching slice of the given block's values. \<open>addBlocks_loop\<close> is the \<open>while\<close> loop,
  with the loop variables as arguments; the loop ends when the request is used up or the
  table is, and returns \<open>false\<close> from inside the loop at the first index that holds a
  block whose type is not \<open>NONE\<close>.
\<close>

definition addBlocks_blockNew ::
  "memory_type \<Rightarrow> ref option \<Rightarrow> int \<Rightarrow> int \<Rightarrow> int \<Rightarrow> 'f bus \<Rightarrow> ref \<times> 'f bus" where
  "addBlocks_blockNew ty block addrNext sizeBlock offset bus =
     (case block of
        None \<Rightarrow> alloc (new_Memory (Some ty) (Some addrNext) sizeBlock None) bus
      | Some b \<Rightarrow>
          if msize (heap bus b) = blockSize bus then (b, bus)
          else alloc (new_Memory (Some ty) (Some addrNext) sizeBlock
                 (Some (js_slice (mvalues (heap bus b)) offset (offset + sizeBlock)))) bus)"

function addBlocks_loop ::
  "memory_type \<Rightarrow> ref option \<Rightarrow> int \<Rightarrow> int \<Rightarrow> int \<Rightarrow> nat \<Rightarrow> 'f bus \<Rightarrow> bool \<times> 'f bus" where
  "addBlocks_loop ty block addrNext sizeLeft offset iBlock bus =
     (if sizeLeft > 0 \<and> iBlock < length (blocks bus) then
        let addrBlock = int iBlock * blockSize bus;
            sizeBlock0 = blockSize bus - (addrNext - addrBlock);
            sizeBlock = (if sizeBlock0 > sizeLeft then sizeLeft else sizeBlock0);
            blockExisting = blocks bus ! iBlock
        in if (case blockExisting of None \<Rightarrow> False
               | Some r \<Rightarrow> mtype (heap bus r) \<noteq> TYPE_NONE) then (False, bus)
           else
             let new = addBlocks_blockNew ty block addrNext sizeBlock offset bus
             in addBlocks_loop ty block (addrBlock + blockSize bus) (sizeLeft - sizeBlock)
                  (offset + sizeBlock) (Suc iBlock)
                  ((snd new)\<lparr>blocks := (blocks (snd new))[iBlock := Some (fst new)]\<rparr>)
      else (True, bus))"
  by pat_completeness auto
termination
  by (relation "measure (\<lambda>(ty, block, addrNext, sizeLeft, offset, iBlock, bus). length (blocks bus) - iBlock)")
     (auto simp: addBlocks_blockNew_def alloc_def split: option.splits)

declare addBlocks_loop.simps [simp del]

definition addBlocks :: "int \<Rightarrow> int \<Rightarrow> memory_type \<Rightarrow> ref option \<Rightarrow> 'f bus \<Rightarrow> bool \<times> 'f bus" where
  "addBlocks a sz ty block bus =
     addBlocks_loop ty block a sz 0 (nat (js_shr a (blockShift bus))) bus"

text \<open>
  The constructor, lines 70-87. A configuration value that is missing or zero is replaced
  by its default (\<open>config['addrWidth'] || 16\<close>). \<open>new Array(blockTotal)\<close> raises a
  \<open>RangeError\<close> for a negative length. The \<open>for\<close> loop installs the shared \<open>NONE\<close> block
  at every block address; its step \<open>blockSize\<close> is positive (a zero was replaced by the
  default), which the guard \<open>0 < bsz\<close> records.
\<close>

record bus_config =
  cfg_addrWidth :: "nat option"
  cfg_dataWidth :: "nat option"
  cfg_blockSize :: "nat option"

definition js_default :: "nat option \<Rightarrow> nat \<Rightarrow> nat" where
  "js_default x d = (case x of None \<Rightarrow> d | Some n \<Rightarrow> if n = 0 then d else n)"

function Bus_fill :: "int \<Rightarrow> int \<Rightarrow> int \<Rightarrow> ref \<Rightarrow> 'f bus \<Rightarrow> 'f bus" where
  "Bus_fill atotal bsz a memory bus =
     (if a < atotal \<and> 0 < bsz
      then Bus_fill atotal bsz (a + bsz) memory (snd (addBlocks a bsz TYPE_NONE (Some memory) bus))
      else bus)"
  by pat_completeness auto
termination
  by (relation "measure (\<lambda>(atotal, bsz, a, memory, bus). nat (atotal - a))") auto

declare Bus_fill.simps [simp del]

definition Bus :: "bus_config \<Rightarrow> js_error + 'f bus" where
  "Bus config =
     (let aw = js_default (cfg_addrWidth config) 16;
          dw = js_default (cfg_dataWidth config) 8;
          atotal = (2::int) ^ aw;
          alimit = ToInt32 (if aw \<le> 53 then atotal - 1 else atotal);
          bsz = int (js_default (cfg_blockSize config) 1024);
          btotal = js_quot32 atotal bsz;
          shift = int (log2_floor (nat bsz));
          blimit = js_shl 1 shift - 1
      in if btotal < 0 then Inl RangeError
         else
           let bus0 = \<lparr> addrWidth = aw, dataWidth = dw, addrTotal = atotal, addrLimit = alimit,
                         blockSize = bsz, blockTotal = btotal, blockShift = shift,
                         blockLimit = blimit, blocks = replicate (nat btotal) None,
                         heap = (\<lambda>r. new_Memory None None 0 None), nextRef = 0 \<rparr>;
               (memory, bus1) = alloc (new_Memory None None bsz None) bus0
           in Inr (Bus_fill (addrTotal bus1) (blockSize bus1) 0 memory bus1))"

text \<open>
  Calling a block's \<open>readData\<close> or \<open>writeData\<close> slot. A trap callback is foreign code that
  runs in the middle of the access: \<open>cb f a v\<close> is what callback \<open>f\<close> does, called with
  address \<open>a\<close> (\<open>None\<close> is \<open>NaN\<close>, from a block without an address) and value \<open>v\<close>, to the
  machine state, which is the bus together with the rest of the world \<open>'w\<close>; it may
  raise. The wrapper closures are those of \<open>trapRead\<close> (lines 236-240) and \<open>trapWrite\<close>
  (lines 266-269); they read \<open>block.readPrev\<close>, \<open>block.readTrap\<close>, \<open>block.writeTrap\<close> and
  \<open>block.writePrev\<close> at the time of the call. A wrapper whose \<open>readPrev\<close> is again a
  wrapper would call itself without end; the host language ends that with a
  \<open>RangeError\<close>.
\<close>

type_synonym ('f, 'w) machine = "'f bus \<times> 'w"

type_synonym ('f, 'w) callbacks =
  "'f \<Rightarrow> int option \<Rightarrow> int option \<Rightarrow> ('f, 'w) machine \<Rightarrow> js_error + ('f, 'w) machine"

definition block_addr_plus :: "'f memory \<Rightarrow> int \<Rightarrow> int option" where
  "block_addr_plus b off = (case addr b of None \<Rightarrow> None | Some a \<Rightarrow> Some (a + off))"

definition block_readData ::
  "('f, 'w) callbacks \<Rightarrow> ref \<Rightarrow> int \<Rightarrow> ('f, 'w) machine \<Rightarrow> js_error + (int option \<times> ('f, 'w) machine)" where
  "block_readData cb r off s =
     (case readData (heap (fst s) r) of
        Native \<Rightarrow> Inr (memory_readNative (heap (fst s) r) off, s)
      | TrapWrapper \<Rightarrow>
          (case readPrev (heap (fst s) r) of
             None \<Rightarrow> Inl TypeError
           | Some TrapWrapper \<Rightarrow> Inl RangeError
           | Some Native \<Rightarrow>
               let v = memory_readNative (heap (fst s) r) off in
               (case readTrap (heap (fst s) r) of
                  None \<Rightarrow> Inl TypeError
                | Some f \<Rightarrow>
                    (case cb f (block_addr_plus (heap (fst s) r) off) v s of
                       Inl e \<Rightarrow> Inl e
                     | Inr s' \<Rightarrow> Inr (v, s')))))"

definition block_writeNative :: "ref \<Rightarrow> int \<Rightarrow> int \<Rightarrow> ('f, 'w) machine \<Rightarrow> ('f, 'w) machine" where
  "block_writeNative r off v s =
     ((fst s)\<lparr>heap := (heap (fst s))(r := memory_writeNative (heap (fst s) r) off v)\<rparr>, snd s)"

definition block_writeData ::
  "('f, 'w) callbacks \<Rightarrow> ref \<Rightarrow> int \<Rightarrow> int \<Rightarrow> ('f, 'w) machine \<Rightarrow> js_error + ('f, 'w) machine" where
  "block_writeData cb r off v s =
     (case writeData (heap (fst s) r) of
        Native \<Rightarrow> Inr (block_writeNative r off v s)
      | TrapWrapper \<Rightarrow>
          (case writeTrap (heap (fst s) r) of
             None \<Rightarrow> Inl TypeError
           | Some f \<Rightarrow>
               (case cb f (block_addr_plus (heap (fst s) r) off) (Some v) s of
                  Inl e \<Rightarrow> Inl e
                | Inr s' \<Rightarrow>
                    (case writePrev (heap (fst s') r) of
                       None \<Rightarrow> Inl TypeError
                     | Some TrapWrapper \<Rightarrow> Inl RangeError
                     | Some Native \<Rightarrow> Inr (block_writeNative r off v s')))))"

text \<open>
  \<open>blocks[i]\<close>: an index outside the array, like a hole, gives \<open>undefined\<close>.
\<close>

definition blocks_at :: "'f bus \<Rightarrow> int \<Rightarrow> ref option" where
  "blocks_at bus i = (if 0 \<le> i \<and> nat i < length (blocks bus) then blocks bus ! nat i else None)"

text \<open>\<open>readData(addr, ref)\<close> and \<open>writeData(addr, value, ref)\<close>, lines 203-219.\<close>

definition Bus_readData ::
  "('f, 'w) callbacks \<Rightarrow> int \<Rightarrow> ('f, 'w) machine \<Rightarrow> js_error + (int option \<times> ('f, 'w) machine)" where
  "Bus_readData cb a s =
     (case blocks_at (fst s) (js_shr (js_and a (addrLimit (fst s))) (blockShift (fst s))) of
        None \<Rightarrow> Inl TypeError
      | Some r \<Rightarrow> block_readData cb r (js_and a (blockLimit (fst s))) s)"

definition Bus_writeData ::
  "('f, 'w) callbacks \<Rightarrow> int \<Rightarrow> int \<Rightarrow> ('f, 'w) machine \<Rightarrow> js_error + ('f, 'w) machine" where
  "Bus_writeData cb a v s =
     (case blocks_at (fst s) (js_shr (js_and a (addrLimit (fst s))) (blockShift (fst s))) of
        None \<Rightarrow> Inl TypeError
      | Some r \<Rightarrow> block_writeData cb r (js_and a (blockLimit (fst s))) v s)"

text \<open>
  \<open>trapRead\<close>, \<open>trapWrite\<close>, \<open>untrapRead\<close>, \<open>untrapWrite\<close>, lines 232-325. A missing
  \<open>nReadTraps\<close> counts as zero (\<open>!block.nReadTraps\<close>); a table entry that is \<open>undefined\<close>
  makes the property access raise a \<open>TypeError\<close>.
\<close>

definition trapRead :: "int \<Rightarrow> 'f \<Rightarrow> 'f bus \<Rightarrow> js_error + (bool \<times> 'f bus)" where
  "trapRead a func bus =
     (case blocks_at bus (js_shr a (blockShift bus)) of
        None \<Rightarrow> Inl TypeError
      | Some r \<Rightarrow>
          let block = heap bus r in
          if nReadTraps block = 0 then
            Inr (True, bus\<lparr>heap := (heap bus)(r := block\<lparr>nReadTraps := 1, readTrap := Some func,
                   readPrev := Some (readData block), readData := TrapWrapper\<rparr>)\<rparr>)
          else if readTrap block = Some func then
            Inr (True, bus\<lparr>heap := (heap bus)(r := block\<lparr>nReadTraps := Suc (nReadTraps block)\<rparr>)\<rparr>)
          else Inr (False, bus))"

definition trapWrite :: "int \<Rightarrow> 'f \<Rightarrow> 'f bus \<Rightarrow> js_error + (bool \<times> 'f bus)" where
  "trapWrite a func bus =
     (case blocks_at bus (js_shr a (blockShift bus)) of
        None \<Rightarrow> Inl TypeError
      | Some r \<Rightarrow>
          let block = heap bus r in
          if nWriteTraps block = 0 then
            Inr (True, bus\<lparr>heap := (heap bus)(r := block\<lparr>nWriteTraps := 1, writeTrap := Some func,
                   writePrev := Some (writeData block), writeData := TrapWrapper\<rparr>)\<rparr>)
          else if writeTrap block = Some func then
            Inr (True, bus\<lparr>heap := (heap bus)(r := block\<lparr>nWriteTraps := Suc (nWriteTraps block)\<rparr>)\<rparr>)
          else Inr (False, bus))"

text \<open>
  In \<open>untrapRead\<close>, \<open>block.readData = block.readPrev\<close> copies the slot as it is; were
  \<open>readPrev\<close> \<open>undefined\<close>, \<open>readData\<close> would become \<open>undefined\<close>, which the record cannot
  hold: the model raises the \<open>TypeError\<close> of the next access at once.
\<close>

definition untrapRead :: "int \<Rightarrow> 'f \<Rightarrow> 'f bus \<Rightarrow> js_error + (bool \<times> 'f bus)" where
  "untrapRead a func bus =
     (case blocks_at bus (js_shr a (blockShift bus)) of
        None \<Rightarrow> Inl TypeError
      | Some r \<Rightarrow>
          let block = heap bus r in
          if nReadTraps block \<noteq> 0 \<and> readTrap block = Some func then
            if nReadTraps block - 1 = 0 then
              (case readPrev block of
                 None \<Rightarrow> Inl TypeError
               | Some prev \<Rightarrow>
                   Inr (True, bus\<lparr>heap := (heap bus)(r := block\<lparr>nReadTraps := 0, readData := prev,
                          readPrev := None, readTrap := None\<rparr>)\<rparr>))
            else Inr (True, bus\<lparr>heap := (heap bus)(r := block\<lparr>nReadTraps := nReadTraps block - 1\<rparr>)\<rparr>)
          else Inr (False, bus))"

definition untrapWrite :: "int \<Rightarrow> 'f \<Rightarrow> 'f bus \<Rightarrow> js_error + (bool \<times> 'f bus)" where
  "untrapWrite a func bus =
     (case blocks_at bus (js_shr a (blockShift bus)) of
        None \<Rightarrow> Inl TypeError
      | Some r \<Rightarrow>
          let block = heap bus r in
          if nWriteTraps block \<noteq> 0 \<and> writeTrap block = Some func then
            if nWriteTraps block - 1 = 0 then
              (case writePrev block of
                 None \<Rightarrow> Inl TypeError
               | Some prev \<Rightarrow>
                   Inr (True, bus\<lparr>heap := (heap bus)(r := block\<lparr>nWriteTraps := 0, writeData := prev,
                          writePrev := None, writeTrap := None\<rparr>)\<rparr>))
            else Inr (True, bus\<lparr>heap := (heap bus)(r := block\<lparr>nWriteTraps := nWriteTraps block - 1\<rparr>)\<rparr>)
          else Inr (False, bus))"

subsection \<open>Notions used to state the properties of the bus\<close>

text \<open>
  \<open>holds_block bus j\<close>: index \<open>j\<close> of the table holds a block whose type is not \<open>NONE\<close>
  (the test of line 119). \<open>covered bus a sz k\<close>: index \<open>k\<close> of the table is covered by
  the request \<open>[a, a + sz)\<close>. \<open>replacement bus block i\<close>: the reference that the loop stores
  in its \<open>i\<close>-th round, namely the given block when it has the bus's block size and the
  \<open>i\<close>-th fresh object otherwise. \<open>block_geometry\<close>: the block size is the power of two
  given by the shift. \<open>refs_ok\<close>: every reference in use is below \<open>nextRef\<close>, as it is for
  references to objects that exist.
\<close>

definition holds_block :: "'f bus \<Rightarrow> nat \<Rightarrow> bool" where
  "holds_block bus j = (case blocks bus ! j of None \<Rightarrow> False | Some r \<Rightarrow> mtype (heap bus r) \<noteq> TYPE_NONE)"

definition covered :: "'f bus \<Rightarrow> int \<Rightarrow> int \<Rightarrow> nat \<Rightarrow> bool" where
  "covered bus a sz k =
     (nat (js_shr a (blockShift bus)) \<le> k \<and> int k * blockSize bus < a + sz \<and> k < length (blocks bus))"

definition replacement :: "'f bus \<Rightarrow> ref option \<Rightarrow> nat \<Rightarrow> ref" where
  "replacement bus block i =
     (case block of
        None \<Rightarrow> nextRef bus + i
      | Some b \<Rightarrow> if msize (heap bus b) = blockSize bus then b else nextRef bus + i)"

definition block_geometry :: "'f bus \<Rightarrow> bool" where
  "block_geometry bus =
     (0 \<le> blockShift bus \<and> blockShift bus < 32 \<and> blockSize bus = 2 ^ nat (blockShift bus))"

definition refs_ok :: "'f bus \<Rightarrow> ref option \<Rightarrow> bool" where
  "refs_ok bus block =
     ((\<forall>j r. j < length (blocks bus) \<and> blocks bus ! j = Some r \<longrightarrow> r < nextRef bus) \<and>
      (\<forall>b. block = Some b \<longrightarrow> b < nextRef bus))"

text \<open>
  \<open>repeat_call n call s\<close>: \<open>n\<close> calls of \<open>call\<close> in a row, each of which returns \<open>true\<close>;
  \<open>None\<close> when one of them raises or returns \<open>false\<close>. \<open>read_trap_ready b f\<close>: the read
  trap of block \<open>b\<close> is free (count zero, slots unset) or already holds \<open>f\<close>, so that
  \<open>trapRead\<close> with \<open>f\<close> succeeds. \<open>read_trapped b f n\<close>: block \<open>b\<close> after \<open>n \<ge> 1\<close> such calls.
  \<open>set_block bus r b\<close>: the bus with object \<open>r\<close> replaced by \<open>b\<close>.
\<close>

fun repeat_call :: "nat \<Rightarrow> ('s \<Rightarrow> js_error + bool \<times> 's) \<Rightarrow> 's \<Rightarrow> 's option" where
  "repeat_call 0 call s = Some s"
| "repeat_call (Suc n) call s =
     (case call s of
        Inl e \<Rightarrow> None
      | Inr (ok, s') \<Rightarrow> if ok then repeat_call n call s' else None)"

definition set_block :: "'f bus \<Rightarrow> ref \<Rightarrow> 'f memory \<Rightarrow> 'f bus" where
  "set_block bus r b = bus\<lparr>heap := (heap bus)(r := b)\<rparr>"

definition read_trap_ready :: "'f memory \<Rightarrow> 'f \<Rightarrow> bool" where
  "read_trap_ready b f =
     (if nReadTraps b = 0 then readTrap b = None \<and> readPrev b = None else readTrap b = Some f)"

definition read_trapped :: "'f memory \<Rightarrow> 'f \<Rightarrow> nat \<Rightarrow> 'f memory" where
  "read_trapped b f n =
     (if nReadTraps b = 0
      then b\<lparr>nReadTraps := n, readTrap := Some f, readPrev := Some (readData b), readData := TrapWrapper\<rparr>
      else b\<lparr>nReadTraps := nReadTraps b + n\<rparr>)"

definition write_trap_ready :: "'f memory \<Rightarrow> 'f \<Rightarrow> bool" where
  "write_trap_ready b f =
     (if nWriteTraps b = 0 then writeTrap b = None \<and> writePrev b = None else writeTrap b = Some f)"

definition write_trapped :: "'f memory \<Rightarrow> 'f \<Rightarrow> nat \<Rightarrow> 'f memory" where
  "write_trapped b f n =
     (if nWriteTraps b = 0
      then b\<lparr>nWriteTraps := n, writeTrap := Some f, writePrev := Some (writeData b), writeData := TrapWrapper\<rparr>
      else b\<lparr>nWriteTraps := nWriteTraps b + n\<rparr>)"

text \<open>
  \<open>bus_wf\<close>: the shape the constructor gives a bus whose block size is a power of two
  not above the size of the address space (of at most 32 bits): the derived fields
  \<open>addrLimit\<close> and \<open>blockLimit\<close> are the masks the constructor computes, the table has
  \<open>addrTotal / blockSize\<close> entries, and every entry holds a block.
\<close>

definition bus_wf :: "'f bus \<Rightarrow> bool" where
  "bus_wf bus =
     (addrWidth bus \<le> 32 \<and> 0 \<le> blockShift bus \<and> blockShift bus < 32 \<and>
      nat (blockShift bus) \<le> addrWidth bus \<and>
      addrLimit bus = ToInt32 (2 ^ addrWidth bus - 1) \<and>
      blockLimit bus = js_shl 1 (blockShift bus) - 1 \<and>
      length (blocks bus) = 2 ^ (addrWidth bus - nat (blockShift bus)) \<and>
      (\<forall>i<length (blocks bus). blocks bus ! i \<noteq> None))"

text \<open>
  An example: the bus built by the constructor for an 11-bit address space (two blocks of
  1024 bytes), after \<open>addBlocks(1024, 1024, RAM)\<close> has put RAM into the second block.
\<close>

definition example_bus :: "unit bus" where
  "example_bus =
     (case Bus \<lparr> cfg_addrWidth = Some 11, cfg_dataWidth = None, cfg_blockSize = None \<rparr> of
        Inl e \<Rightarrow> undefined
      | Inr bus \<Rightarrow> snd (addBlocks 1024 1024 TYPE_RAM None bus))"

text \<open>
  An example callback: it changes nothing on the bus and appends to a log the address and
  value it was called with, together with the values that block 1 holds at that moment.
\<close>

definition log_callback :: "(unit, (int option \<times> int option \<times> int list) list) callbacks" where
  "log_callback f a v s = Inr (fst s, snd s @ [(a, v, mvalues (heap (fst s) 1))])"

section \<open>The debugger\<close>

text \<open>
  Class \<open>DbgIO\<close>. \<open>truncate(v, nBits, fUnsigned)\<close>, lines 1018-1063; a missing or zero
  \<open>nBits\<close> is replaced by \<open>nDefaultBits\<close>, given as the first argument. \<open>Math.pow(2, nBits)\<close>
  is the exact power, and the arithmetic on numbers is exact while the values stay
  within the range where doubles represent integers exactly. The function returns
  \<open>vNew\<close> (the warning printed when it differs from \<open>v\<close> is not modelled).
\<close>

definition dbg_truncate :: "nat \<Rightarrow> int \<Rightarrow> nat \<Rightarrow> bool \<Rightarrow> int" where
  "dbg_truncate nDefaultBits v nBits0 fUnsigned =
     (let nBits = (if nBits0 = 0 then nDefaultBits else nBits0) in
      if fUnsigned then
        (if nBits = 32 then ToUint32 v
         else if nBits < 32 then js_and v (js_shl 1 (int nBits) - 1)
         else
           let limit = 2 ^ nBits in
           if v < 0 \<or> v \<ge> limit then
             (let vNew = js_rem v limit in if vNew < 0 then vNew + limit else vNew)
           else v)
      else
        (if nBits \<le> 32 then js_sar (js_shl v (32 - int nBits)) (32 - int nBits)
         else
           let limit = 2 ^ (nBits - 1) in
           if v \<ge> limit then
             (let vNew = js_rem v limit in
              if js_and (js_quot32 v limit) 1 \<noteq> 0 then vNew - limit else vNew)
           else if v < - limit then
             (let vNew = js_rem v limit in
              if js_and (js_quot32 (- v - 1) limit) 1 \<noteq> 0
              then (if vNew \<noteq> 0 then vNew + limit else vNew)
              else (if vNew = 0 then vNew - limit else vNew))
           else v))"

text \<open>
  The breakpoint tables \<open>aBreakReadAddr\<close> and \<open>aBreadWriteAddr\<close> (the source's spelling)
  are arrays of numbers in which a cleared slot is \<open>undefined\<close> (\<open>None\<close>). The record holds
  what the breakpoint functions and the two bus callbacks use: the tables, the history
  ring buffer with its cursor, the CPU's program counter \<open>regPC\<close> (read only), the flag
  \<open>fBreakException\<close>, and, for the clock, the list \<open>clock_stops\<close> of the messages with
  which \<open>stopCPU\<close> printed and called \<open>time.stop()\<close>. Formatted text is kept as data: a
  message is a constructor with the arguments of its \<open>sprintf\<close>.
\<close>

datatype stop_msg = ReadBreak "int option" | WriteBreak "int option" "int option"


record dbgio =
  nDefaultBits :: nat
  aBreakReadAddr :: "int option list"
  aBreadWriteAddr :: "int option list"
  historyBuffer :: "int option list"
  historyNext :: nat
  regPC :: int
  fBreakException :: bool
  clock_stops :: "stop_msg list"























section \<open>Segment registers\<close>

text \<open>
  Modelled from the spec: the constants of \<open>X86\<close> (the file that declares them is not
  among the sources). A selector holds the requested privilege level in bits 0-1, the
  table indicator in bit 2 and the descriptor index above. The access word of a
  descriptor (its third word) holds base bits 16-23 in bits 0-7, the segment type in
  bits 8-11, the descriptor type (S) in bit 12, the privilege level in bits 13-14 and
  the present bit in bit 15, as the comments of \<open>loadProt\<close> and \<open>loadDesc8\<close> say; within
  the segment type, bit 8 is ACCESSED, bit 9 WRITABLE (data) or READABLE (code), bit 10
  EXPDOWN (data) or CONFORMING (code) and bit 11 CODE, and the system types are TSS 1,
  LDT 2, busy TSS 3, call gate 4, task gate 5, interrupt gate 6 and trap gate 7, as in
  the 80286 descriptor format. \<open>ADDR_INVALID\<close> is the value that \<open>load\<close> and the checks
  return on failure.
\<close>

definition ADDR_INVALID :: int where "ADDR_INVALID = - 1"

definition SEL_RPL :: int where "SEL_RPL = 0x0003"
definition SEL_LDT :: int where "SEL_LDT = 0x0004"
definition SEL_MASK :: int where "SEL_MASK = 0xFFF8"

definition DESC_LIMIT_OFFSET :: int where "DESC_LIMIT_OFFSET = 0"
definition DESC_BASE_OFFSET :: int where "DESC_BASE_OFFSET = 2"
definition DESC_ACC_OFFSET :: int where "DESC_ACC_OFFSET = 4"
definition DESC_EXT_OFFSET :: int where "DESC_EXT_OFFSET = 6"

definition ACC_BASE1623 :: int where "ACC_BASE1623 = 0x00FF"
definition ACC_TYPE_OFFSET :: int where "ACC_TYPE_OFFSET = 5"
definition ACC_TYPE_MASK :: int where "ACC_TYPE_MASK = 0x1F00"
definition ACC_TYPE_SEG :: int where "ACC_TYPE_SEG = 0x1000"
definition ACC_TYPE_CODE :: int where "ACC_TYPE_CODE = 0x0800"
definition ACC_TYPE_CONFORMING :: int where "ACC_TYPE_CONFORMING = 0x0400"
definition ACC_TYPE_EXPDOWN :: int where "ACC_TYPE_EXPDOWN = 0x0400"
definition ACC_TYPE_READABLE :: int where "ACC_TYPE_READABLE = 0x0200"
definition ACC_TYPE_WRITABLE :: int where "ACC_TYPE_WRITABLE = 0x0200"
definition ACC_TYPE_ACCESSED :: int where "ACC_TYPE_ACCESSED = 0x0100"
definition ACC_TYPE_CODE_EXECONLY :: int where "ACC_TYPE_CODE_EXECONLY = 0x1800"
definition ACC_TYPE_CODE_READABLE :: int where "ACC_TYPE_CODE_READABLE = 0x1A00"
definition ACC_TYPE_TSS :: int where "ACC_TYPE_TSS = 0x0100"
definition ACC_TYPE_LDT :: int where "ACC_TYPE_LDT = 0x0200"
definition ACC_TYPE_TSS_BUSY :: int where "ACC_TYPE_TSS_BUSY = 0x0300"
definition ACC_TYPE_GATE_CALL :: int where "ACC_TYPE_GATE_CALL = 0x0400"
definition ACC_TYPE_GATE_TASK :: int where "ACC_TYPE_GATE_TASK = 0x0500"
definition ACC_TYPE_GATE_INT :: int where "ACC_TYPE_GATE_INT = 0x0600"
definition ACC_TYPE_GATE_TRAP :: int where "ACC_TYPE_GATE_TRAP = 0x0700"
definition ACC_DPL_MASK :: int where "ACC_DPL_MASK = 0x6000"
definition ACC_DPL_SHIFT :: int where "ACC_DPL_SHIFT = 13"
definition ACC_PRESENT :: int where "ACC_PRESENT = 0x8000"
definition ACC_INVALID :: int where "ACC_INVALID = 0"

definition EXT_LIMIT1619 :: int where "EXT_LIMIT1619 = 0x000F"
definition EXT_BIG :: int where "EXT_BIG = 0x0040"
definition EXT_LIMITPAGES :: int where "EXT_LIMITPAGES = 0x0080"
definition EXT_BASE2431 :: int where "EXT_BASE2431 = 0xFF00"

definition ERRCODE_EXT :: int where "ERRCODE_EXT = 0x0001"
definition ERRCODE_IDT :: int where "ERRCODE_IDT = 0x0002"

definition PS_TF :: int where "PS_TF = 0x0100"
definition PS_IF :: int where "PS_IF = 0x0200"
definition PS_NT :: int where "PS_NT = 0x4000"

definition CR0_MSW_PE :: int where "CR0_MSW_PE = 0x0001"
definition CR0_MSW_TS :: int where "CR0_MSW_TS = 0x0008"

definition MODEL_80386 :: int where "MODEL_80386 = 80386"

definition TSS_PREV_TSS :: int where "TSS_PREV_TSS = 0x00"
definition TSS_CPL0_SP :: int where "TSS_CPL0_SP = 0x02"
definition TSS_TASK_IP :: int where "TSS_TASK_IP = 0x0e"
definition TSS_TASK_PS :: int where "TSS_TASK_PS = 0x10"
definition TSS_TASK_AX :: int where "TSS_TASK_AX = 0x12"
definition TSS_TASK_CX :: int where "TSS_TASK_CX = 0x14"
definition TSS_TASK_DX :: int where "TSS_TASK_DX = 0x16"
definition TSS_TASK_BX :: int where "TSS_TASK_BX = 0x18"
definition TSS_TASK_SP :: int where "TSS_TASK_SP = 0x1a"
definition TSS_TASK_BP :: int where "TSS_TASK_BP = 0x1c"
definition TSS_TASK_SI :: int where "TSS_TASK_SI = 0x1e"
definition TSS_TASK_DI :: int where "TSS_TASK_DI = 0x20"
definition TSS_TASK_ES :: int where "TSS_TASK_ES = 0x22"
definition TSS_TASK_CS :: int where "TSS_TASK_CS = 0x24"
definition TSS_TASK_SS :: int where "TSS_TASK_SS = 0x26"
definition TSS_TASK_DS :: int where "TSS_TASK_DS = 0x28"
definition TSS_TASK_LDT :: int where "TSS_TASK_LDT = 0x2a"

datatype x86_exception = TS_FAULT | NP_FAULT | SS_FAULT | GP_FAULT

text \<open>
  Class \<open>X86Seg\<close>. The role \<open>id\<close> of a segment register is \<open>seg_id\<close> here. The four
  function slots \<open>load\<close>, \<open>loadIDT\<close>, \<open>checkRead\<close> and \<open>checkWrite\<close> hold the name of the
  method that \<open>updateMode\<close> put there; the functions \<open>seg_load\<close>, \<open>seg_checkRead\<close> and
  \<open>seg_checkWrite\<close> below call the method that the slot names. \<open>fCall\<close> is \<open>null\<close> (\<open>None\<close>),
  \<open>true\<close> or \<open>false\<close>. The name of the register and its links to the CPU and the debugger
  are left out.
\<close>

datatype seg_ident = ID_NULL | ID_CODE | ID_DATA | ID_STACK | ID_TSS | ID_LDT | ID_OTHER | ID_DEBUG

datatype load_slot = loadReal_slot | loadProt_slot
datatype loadIDT_slot = loadIDTReal_slot | loadIDTProt_slot
datatype checkRead_slot =
  checkReadReal_slot | checkReadProt_slot | checkReadProtDown_slot | checkReadProtDisallowed_slot
datatype checkWrite_slot =
  checkWriteReal_slot | checkWriteProt_slot | checkWriteProtDown_slot | checkWriteProtDisallowed_slot

record seg =
  seg_id :: seg_ident
  sel :: int
  limit :: int
  offMax :: int
  base :: int
  acc :: int
  type :: int
  ext :: int
  cpl :: int
  dpl :: int
  addrDesc :: int
  dataSize :: int
  addrSize :: int
  dataMask :: int
  addrMask :: int
  awParms :: "int list"
  fCall :: "bool option"
  fStackSwitch :: bool
  fExpDown :: bool
  load :: load_slot
  loadIDT :: loadIDT_slot
  checkRead :: checkRead_slot
  checkWrite :: checkWrite_slot

text \<open>
  Modelled from the spec: the CPU (class \<open>X86CPU\<close> is not among the sources), as far as
  the segment registers use it. Its segment registers are objects that the methods of
  one register reach through the CPU (\<open>cpu.segLDT\<close>, \<open>cpu.segSS\<close>, \<open>cpu.segTSS\<close>), so the
  CPU state holds them all, in the store \<open>segs\<close>, and a method of \<open>X86Seg\<close> takes the name
  of the register it is called on. Memory is a flat array of bytes, addressed by linear
  address, little-endian for words. \<open>faults\<close> lists the faults reported through
  \<open>X86.fnFault\<close>, each with its error code and its halt flag (\<open>false\<close> when omitted).
  \<open>I386\<close> is the build flag of that name.
\<close>

datatype segreg = SegCS | SegDS | SegES | SegSS | SegTSS | SegLDT | SegOther nat

datatype fault = Fault x86_exception int bool

record cpu =
  I386 :: bool
  model :: int
  regCR0 :: int
  regEIP :: int
  regPS :: int
  regEAX :: int
  regECX :: int
  regEDX :: int
  regEBX :: int
  regEBP :: int
  regESI :: int
  regEDI :: int
  nStepCycles :: int
  addrGDT :: int
  addrGDTLimit :: int
  addrIDT :: int
  addrIDTLimit :: int
  mem :: "int \<Rightarrow> int"
  faults :: "fault list"
  segs :: "segreg \<Rightarrow> seg"

definition getByte :: "cpu \<Rightarrow> int \<Rightarrow> int" where
  "getByte c a = take_bit 8 (mem c a)"

definition setByte :: "int \<Rightarrow> int \<Rightarrow> cpu \<Rightarrow> cpu" where
  "setByte a v c = c\<lparr>mem := (mem c)(a := take_bit 8 v)\<rparr>"

definition getShort :: "cpu \<Rightarrow> int \<Rightarrow> int" where
  "getShort c a = getByte c a + 256 * getByte c (a + 1)"

definition setShort :: "int \<Rightarrow> int \<Rightarrow> cpu \<Rightarrow> cpu" where
  "setShort a v c = setByte (a + 1) (drop_bit 8 (take_bit 16 v)) (setByte a v c)"

definition fnFault :: "x86_exception \<Rightarrow> int \<Rightarrow> bool \<Rightarrow> cpu \<Rightarrow> cpu" where
  "fnFault e err fHalt c = c\<lparr>faults := faults c @ [Fault e err fHalt]\<rparr>"

definition this_update :: "segreg \<Rightarrow> (seg \<Rightarrow> seg) \<Rightarrow> cpu \<Rightarrow> cpu" where
  "this_update who f c = c\<lparr>segs := (segs c)(who := f (segs c who))\<rparr>"

text \<open>
  The operations of the CPU on its stack, flags and instruction pointer are not among
  the sources either and the spec does not define them; they are parameters of the
  methods that call them.
\<close>

record cpu_ops =
  popWord :: "cpu \<Rightarrow> int \<times> cpu"
  pushWord :: "int \<Rightarrow> cpu \<Rightarrow> cpu"
  setSS :: "int \<Rightarrow> bool \<Rightarrow> cpu \<Rightarrow> cpu"
  setSP :: "int \<Rightarrow> cpu \<Rightarrow> cpu"
  getSP :: "cpu \<Rightarrow> int"
  getSS :: "cpu \<Rightarrow> int"
  getSOWord :: "segreg \<Rightarrow> int \<Rightarrow> cpu \<Rightarrow> int \<times> cpu"
  getIP :: "cpu \<Rightarrow> int"
  getPS :: "cpu \<Rightarrow> int"
  setPS :: "int \<Rightarrow> cpu \<Rightarrow> cpu"
  setCSIP :: "int \<Rightarrow> int \<Rightarrow> cpu \<Rightarrow> cpu"

text \<open>\<open>loadReal(sel, fSuppress)\<close>, lines 128-139.\<close>

definition loadReal :: "segreg \<Rightarrow> int \<Rightarrow> cpu \<Rightarrow> int \<times> cpu" where
  "loadReal who s c =
     (let c1 = this_update who (\<lambda>this. this\<lparr>sel := js_and s 0xffff\<rparr>) c;
          b = js_shl (sel (segs c1 who)) 4
      in (b, this_update who (\<lambda>this. this\<lparr>base := b\<rparr>) c1))"

text \<open>
  The checks, lines 274-412. A check returns the linear address or \<open>ADDR_INVALID\<close>; the
  ones for protected mode report a general protection fault with error code 0 when the
  access is not allowed, unless \<open>fSuppress\<close> is set.
\<close>

definition checkReadReal :: "segreg \<Rightarrow> int \<Rightarrow> int \<Rightarrow> bool \<Rightarrow> cpu \<Rightarrow> int \<times> cpu" where
  "checkReadReal who off cb fSuppress c = (ToInt32 (base (segs c who) + off), c)"

definition checkWriteReal :: "segreg \<Rightarrow> int \<Rightarrow> int \<Rightarrow> bool \<Rightarrow> cpu \<Rightarrow> int \<times> cpu" where
  "checkWriteReal who off cb fSuppress c = (ToInt32 (base (segs c who) + off), c)"

definition checkReadProtDisallowed :: "segreg \<Rightarrow> int \<Rightarrow> int \<Rightarrow> bool \<Rightarrow> cpu \<Rightarrow> int \<times> cpu" where
  "checkReadProtDisallowed who off cb fSuppress c =
     (ADDR_INVALID, if \<not> fSuppress then fnFault GP_FAULT 0 False c else c)"

definition checkWriteProtDisallowed :: "segreg \<Rightarrow> int \<Rightarrow> int \<Rightarrow> bool \<Rightarrow> cpu \<Rightarrow> int \<times> cpu" where
  "checkWriteProtDisallowed who off cb fSuppress c =
     (ADDR_INVALID, if \<not> fSuppress then fnFault GP_FAULT 0 False c else c)"

definition checkReadProt :: "segreg \<Rightarrow> int \<Rightarrow> int \<Rightarrow> bool \<Rightarrow> cpu \<Rightarrow> int \<times> cpu" where
  "checkReadProt who off cb fSuppress c =
     (if ToUint32 off + cb \<le> offMax (segs c who) then (ToInt32 (base (segs c who) + off), c)
      else checkReadProtDisallowed who off cb fSuppress c)"

definition checkReadProtDown :: "segreg \<Rightarrow> int \<Rightarrow> int \<Rightarrow> bool \<Rightarrow> cpu \<Rightarrow> int \<times> cpu" where
  "checkReadProtDown who off cb fSuppress c =
     (if ToUint32 off + cb > offMax (segs c who) then (ToInt32 (base (segs c who) + off), c)
      else checkReadProtDisallowed who off cb fSuppress c)"

definition checkWriteProt :: "segreg \<Rightarrow> int \<Rightarrow> int \<Rightarrow> bool \<Rightarrow> cpu \<Rightarrow> int \<times> cpu" where
  "checkWriteProt who off cb fSuppress c =
     (if ToUint32 off + cb \<le> offMax (segs c who) then (ToInt32 (base (segs c who) + off), c)
      else checkWriteProtDisallowed who off cb fSuppress c)"

definition checkWriteProtDown :: "segreg \<Rightarrow> int \<Rightarrow> int \<Rightarrow> bool \<Rightarrow> cpu \<Rightarrow> int \<times> cpu" where
  "checkWriteProtDown who off cb fSuppress c =
     (if ToUint32 off + cb > offMax (segs c who) then (ToInt32 (base (segs c who) + off), c)
      else checkWriteProtDisallowed who off cb fSuppress c)"

definition seg_checkRead :: "segreg \<Rightarrow> int \<Rightarrow> int \<Rightarrow> bool \<Rightarrow> cpu \<Rightarrow> int \<times> cpu" where
  "seg_checkRead who off cb fSuppress c =
     (case checkRead (segs c who) of
        checkReadReal_slot \<Rightarrow> checkReadReal who off cb fSuppress c
      | checkReadProt_slot \<Rightarrow> checkReadProt who off cb fSuppress c
      | checkReadProtDown_slot \<Rightarrow> checkReadProtDown who off cb fSuppress c
      | checkReadProtDisallowed_slot \<Rightarrow> checkReadProtDisallowed who off cb fSuppress c)"

definition seg_checkWrite :: "segreg \<Rightarrow> int \<Rightarrow> int \<Rightarrow> bool \<Rightarrow> cpu \<Rightarrow> int \<times> cpu" where
  "seg_checkWrite who off cb fSuppress c =
     (case checkWrite (segs c who) of
        checkWriteReal_slot \<Rightarrow> checkWriteReal who off cb fSuppress c
      | checkWriteProt_slot \<Rightarrow> checkWriteProt who off cb fSuppress c
      | checkWriteProtDown_slot \<Rightarrow> checkWriteProtDown who off cb fSuppress c
      | checkWriteProtDisallowed_slot \<Rightarrow> checkWriteProtDisallowed who off cb fSuppress c)"

text \<open>
  \<open>updateMode(fLoad, fProt)\<close>, lines 910-1010. \<open>fProt\<close> is \<open>None\<close> when the argument is
  omitted, and then the PE bit of CR0 decides. \<open>updateMode_access\<close> is the part that
  chooses the check methods from the selector and the access rights (lines 935-961),
  \<open>updateMode_load\<close> the part that runs only after a load (lines 985-999).
\<close>

definition updateMode_access :: "seg \<Rightarrow> seg" where
  "updateMode_access this =
     (if js_and (sel this) (js_not SEL_RPL) = 0 then
        this\<lparr>checkRead := checkReadProtDisallowed_slot, checkWrite := checkWriteProtDisallowed_slot\<rparr>
      else if js_and (acc this) ACC_TYPE_SEG \<noteq> 0 then
        let this1 = (if js_and (acc this) ACC_TYPE_CODE_READABLE = ACC_TYPE_CODE_EXECONLY
                     then this\<lparr>checkRead := checkReadProtDisallowed_slot\<rparr> else this);
            this2 = (if js_and (acc this1) ACC_TYPE_CODE \<noteq> 0 \<or> js_and (acc this1) ACC_TYPE_WRITABLE = 0
                     then this1\<lparr>checkWrite := checkWriteProtDisallowed_slot\<rparr> else this1)
        in if js_and (acc this2) (js_or ACC_TYPE_CODE ACC_TYPE_EXPDOWN) = ACC_TYPE_EXPDOWN then
             let this3 = (if checkRead this2 = checkReadProt_slot
                          then this2\<lparr>checkRead := checkReadProtDown_slot\<rparr> else this2);
                 this4 = (if checkWrite this3 = checkWriteProt_slot
                          then this3\<lparr>checkWrite := checkWriteProtDown_slot\<rparr> else this3)
             in this4\<lparr>fExpDown := True\<rparr>
           else this2
      else this)"

definition updateMode_load :: "segreg \<Rightarrow> cpu \<Rightarrow> cpu" where
  "updateMode_load who c =
     (let c1 = (if js_and (sel (segs c who)) (js_not SEL_RPL) \<noteq> 0 \<and> addrDesc (segs c who) \<noteq> ADDR_INVALID
                then (let addrACC = addrDesc (segs c who) + ACC_TYPE_OFFSET
                      in setByte addrACC (js_or (getByte c addrACC) (js_sar ACC_TYPE_ACCESSED 8)) c)
                else c);
          c2 = this_update who (\<lambda>this. this\<lparr>cpl := js_and (sel this) SEL_RPL\<rparr>) c1;
          c3 = this_update who (\<lambda>this. this\<lparr>dpl := js_sar (js_and (acc this) ACC_DPL_MASK) ACC_DPL_SHIFT\<rparr>) c2;
          c4 = (if model c3 < MODEL_80386 \<or> js_and (ext (segs c3 who)) EXT_BIG = 0
                then this_update who (\<lambda>this. this\<lparr>dataSize := 2, dataMask := 0xffff\<rparr>) c3
                else this_update who (\<lambda>this. this\<lparr>dataSize := 4, dataMask := ToInt32 0xffffffff\<rparr>) c3)
      in this_update who (\<lambda>this. this\<lparr>addrSize := dataSize this, addrMask := dataMask this\<rparr>) c4)"

definition updateMode :: "segreg \<Rightarrow> bool \<Rightarrow> bool option \<Rightarrow> cpu \<Rightarrow> bool \<times> cpu" where
  "updateMode who fLoad fProt0 c =
     (let fProt = (case fProt0 of None \<Rightarrow> js_and (regCR0 c) CR0_MSW_PE \<noteq> 0 | Some b \<Rightarrow> b);
          c0 = this_update who (\<lambda>this. this\<lparr>fExpDown := False\<rparr>) c
      in if fProt then
           let c1 = this_update who (\<lambda>this. updateMode_access
                      (this\<lparr>load := loadProt_slot, loadIDT := loadIDTProt_slot,
                            checkRead := checkReadProt_slot, checkWrite := checkWriteProt_slot\<rparr>)) c0
           in (fProt, if fLoad then updateMode_load who c1 else c1)
         else
           (fProt, this_update who (\<lambda>this. this\<lparr>load := loadReal_slot, loadIDT := loadIDTReal_slot,
                      checkRead := checkReadReal_slot, checkWrite := checkWriteReal_slot,
                      cpl := 0, dpl := 0, addrDesc := ADDR_INVALID\<rparr>) c0))"

text \<open>
  \<open>loadDesc8(addrDesc, sel, fSuppress)\<close>, lines 595-814, in parts. \<open>loadDesc8_fetch\<close> reads
  the four words of the descriptor (lines 598-609); the values it gives are the local
  variables \<open>limit\<close>, \<open>acc\<close>, \<open>type\<close>, \<open>base\<close> and \<open>ext\<close>. \<open>loadDesc8_install\<close> is the end of
  the block (lines 801-809): it stores the descriptor in the register and calls
  \<open>updateMode(true)\<close>.
\<close>

record desc =
  d_limit :: int
  d_acc :: int
  d_type :: int
  d_base :: int
  d_ext :: int

definition loadDesc8_fetch :: "cpu \<Rightarrow> int \<Rightarrow> desc" where
  "loadDesc8_fetch c a =
     (let limit0 = getShort c (a + DESC_LIMIT_OFFSET);
          acc0 = getShort c (a + DESC_ACC_OFFSET);
          type0 = js_and acc0 ACC_TYPE_MASK;
          base0 = js_or (getShort c (a + DESC_BASE_OFFSET)) (js_shl (js_and acc0 ACC_BASE1623) 16);
          ext0 = getShort c (a + DESC_EXT_OFFSET)
      in if I386 c \<and> model c \<ge> MODEL_80386 then
           let base1 = js_or base0 (js_shl (js_and ext0 EXT_BASE2431) 16);
               limit1 = js_or limit0 (js_shl (js_and ext0 EXT_LIMIT1619) 16);
               limit2 = (if js_and ext0 EXT_LIMITPAGES \<noteq> 0 then js_or (js_shl limit1 12) 0xfff else limit1)
           in \<lparr> d_limit = limit2, d_acc = acc0, d_type = type0, d_base = base1, d_ext = ext0 \<rparr>
         else \<lparr> d_limit = limit0, d_acc = acc0, d_type = type0, d_base = base0, d_ext = ext0 \<rparr>)"

definition loadDesc8_install :: "segreg \<Rightarrow> int \<Rightarrow> desc \<Rightarrow> int \<Rightarrow> cpu \<Rightarrow> cpu" where
  "loadDesc8_install who s d a c =
     snd (updateMode who True None
       (this_update who (\<lambda>this. this\<lparr>sel := s, base := d_base d, limit := d_limit d,
          offMax := ToUint32 (d_limit d) + 1, acc := d_acc d, type := d_type d, ext := d_ext d,
          addrDesc := a\<rparr>) c))"

text \<open>
  The tests for the roles other than CODE (lines 738-800). The result is \<open>Some\<close> of the
  state in which the block is left with \<open>base = addrDesc = ADDR_INVALID\<close>, or \<open>None\<close> when
  the descriptor passes.
\<close>

definition fault_unless :: "bool \<Rightarrow> x86_exception \<Rightarrow> int \<Rightarrow> bool \<Rightarrow> cpu \<Rightarrow> cpu" where
  "fault_unless fSuppress e err fHalt c = (if \<not> fSuppress then fnFault e err fHalt c else c)"

definition loadDesc8_reject :: "seg_ident \<Rightarrow> int \<Rightarrow> desc \<Rightarrow> bool \<Rightarrow> cpu \<Rightarrow> cpu option" where
  "loadDesc8_reject role s d fSuppress c =
     (let selMasked = js_and s SEL_MASK in
      case role of
        ID_DATA \<Rightarrow>
          if selMasked \<noteq> 0 then
            if js_and (d_acc d) ACC_PRESENT = 0 then Some (fault_unless fSuppress NP_FAULT s False c)
            else if d_type d < ACC_TYPE_SEG \<or>
                    js_and (d_type d) (js_or ACC_TYPE_CODE ACC_TYPE_READABLE) = ACC_TYPE_CODE
                 then Some (fault_unless fSuppress GP_FAULT s (d_acc d \<noteq> 0) c)
                 else None
          else None
      | ID_STACK \<Rightarrow>
          if js_and (d_acc d) ACC_PRESENT = 0 then Some (fault_unless fSuppress SS_FAULT s False c)
          else if selMasked = 0 \<or> d_type d < ACC_TYPE_SEG \<or>
                  js_and (d_type d) (js_or ACC_TYPE_CODE ACC_TYPE_WRITABLE) \<noteq> ACC_TYPE_WRITABLE
               then Some (fault_unless fSuppress GP_FAULT s True c)
               else None
      | ID_TSS \<Rightarrow>
          if selMasked = 0 \<or> (d_type d \<noteq> ACC_TYPE_TSS \<and> d_type d \<noteq> ACC_TYPE_TSS_BUSY)
          then Some (fault_unless fSuppress TS_FAULT s True c)
          else None
      | ID_OTHER \<Rightarrow>
          if js_and (d_acc d) ACC_TYPE_SEG = 0 \<and> d_type d > ACC_TYPE_TSS_BUSY then Some c else None
      | _ \<Rightarrow> None)"

text \<open>
  \<open>loadProt(sel, fSuppress)\<close>, lines 164-210, \<open>switchTSS(selNew, fNest)\<close>, lines 440-508, and
  the call of the \<open>load\<close> slot. They call \<open>loadDesc8\<close>, directly or through \<open>load\<close>, and
  \<open>loadDesc8\<close> calls them for gates, so each takes the \<open>loadDesc8\<close> to call as its first
  argument \<open>ld8\<close>. \<open>loadProt_table\<close> gives the address and the limit of the table that
  the selector names (lines 176-182), \<open>loadProt_addrDesc\<close> the address of its descriptor
  in that table (line 194). In the test \<open>(addrDTLimit - addrDesc)|0 >= 7\<close> of \<open>loadProt\<close> the
  comparison binds tighter than the bitwise or, so the operand of the or is \<open>0 >= 7\<close>,
  which is \<open>false\<close>, and the test holds when the difference is not zero as a 32-bit
  integer. Assertions are not modelled.
\<close>

type_synonym loadDesc8_fn = "segreg \<Rightarrow> int \<Rightarrow> int \<Rightarrow> bool \<Rightarrow> cpu \<Rightarrow> (int \<times> cpu) option"

definition loadProt_table :: "cpu \<Rightarrow> int \<Rightarrow> int \<times> int" where
  "loadProt_table c s =
     (if js_and s SEL_LDT = 0 then (addrGDT c, addrGDTLimit c)
      else (base (segs c SegLDT), ToInt32 (base (segs c SegLDT) + limit (segs c SegLDT))))"

definition loadProt_addrDesc :: "cpu \<Rightarrow> int \<Rightarrow> int" where
  "loadProt_addrDesc c s = ToInt32 (fst (loadProt_table c s) + js_and s SEL_MASK)"

definition loadProt_with :: "loadDesc8_fn \<Rightarrow> segreg \<Rightarrow> int \<Rightarrow> bool \<Rightarrow> cpu \<Rightarrow> (int \<times> cpu) option" where
  "loadProt_with ld8 who s0 fSuppress c =
     (let s = js_and s0 0xffff;
          (addrDT, addrDTLimit) = loadProt_table c s
      in if \<not> fSuppress \<or> addrDT \<noteq> 0 then
           let a = loadProt_addrDesc c s
           in if js_or (addrDTLimit - a) 0 \<noteq> 0 then
                ld8 who a s fSuppress (if \<not> fSuppress then c\<lparr>nStepCycles := nStepCycles c - 15\<rparr> else c)
              else Some (ADDR_INVALID, fault_unless fSuppress GP_FAULT s False c)
         else Some (ADDR_INVALID, c))"

definition seg_load_with :: "loadDesc8_fn \<Rightarrow> segreg \<Rightarrow> int \<Rightarrow> bool \<Rightarrow> cpu \<Rightarrow> (int \<times> cpu) option" where
  "seg_load_with ld8 who s fSuppress c =
     (case load (segs c who) of
        loadReal_slot \<Rightarrow> Some (loadReal who s c)
      | loadProt_slot \<Rightarrow> loadProt_with ld8 who s fSuppress c)"

definition switchTSS_save :: "cpu_ops \<Rightarrow> int \<Rightarrow> cpu \<Rightarrow> cpu" where
  "switchTSS_save X addrOld c =
     (let c1 = setShort (addrOld + TSS_TASK_IP) (getIP X c) c;
          c2 = setShort (addrOld + TSS_TASK_PS) (getPS X c1) c1;
          c3 = setShort (addrOld + TSS_TASK_AX) (regEAX c2) c2;
          c4 = setShort (addrOld + TSS_TASK_CX) (regECX c3) c3;
          c5 = setShort (addrOld + TSS_TASK_DX) (regEDX c4) c4;
          c6 = setShort (addrOld + TSS_TASK_BX) (regEBX c5) c5;
          c7 = setShort (addrOld + TSS_TASK_SP) (getSP X c6) c6;
          c8 = setShort (addrOld + TSS_TASK_BP) (regEBP c7) c7;
          c9 = setShort (addrOld + TSS_TASK_SI) (regESI c8) c8;
          c10 = setShort (addrOld + TSS_TASK_DI) (regEDI c9) c9;
          c11 = setShort (addrOld + TSS_TASK_ES) (sel (segs c10 SegES)) c10;
          c12 = setShort (addrOld + TSS_TASK_CS) (sel (segs c11 SegCS)) c11;
          c13 = setShort (addrOld + TSS_TASK_SS) (sel (segs c12 SegSS)) c12
      in setShort (addrOld + TSS_TASK_DS) (sel (segs c13 SegDS)) c13)"

definition switchTSS_regs :: "cpu_ops \<Rightarrow> int \<Rightarrow> bool \<Rightarrow> cpu \<Rightarrow> cpu" where
  "switchTSS_regs X addrNew fNest c =
     (let c1 = setPS X (js_or (getShort c (addrNew + TSS_TASK_PS)) (if fNest then PS_NT else 0)) c;
          c2 = c1\<lparr>regEAX := getShort c1 (addrNew + TSS_TASK_AX)\<rparr>;
          c3 = c2\<lparr>regECX := getShort c2 (addrNew + TSS_TASK_CX)\<rparr>;
          c4 = c3\<lparr>regEDX := getShort c3 (addrNew + TSS_TASK_DX)\<rparr>;
          c5 = c4\<lparr>regEBX := getShort c4 (addrNew + TSS_TASK_BX)\<rparr>;
          c6 = c5\<lparr>regEBP := getShort c5 (addrNew + TSS_TASK_BP)\<rparr>;
          c7 = c6\<lparr>regESI := getShort c6 (addrNew + TSS_TASK_SI)\<rparr>
      in c7\<lparr>regEDI := getShort c7 (addrNew + TSS_TASK_DI)\<rparr>)"

definition switchTSS_finish :: "loadDesc8_fn \<Rightarrow> cpu_ops \<Rightarrow> segreg \<Rightarrow> int \<Rightarrow> int \<Rightarrow> int \<Rightarrow> bool \<Rightarrow> cpu \<Rightarrow> (bool \<times> cpu) option" where
  "switchTSS_finish ld8 X who addrNew cplOld selOld fNest c =
     (let c1 = setCSIP X (getShort c (addrNew + TSS_TASK_IP)) (getShort c (addrNew + TSS_TASK_CS)) c;
          offSP = (if cpl (segs c1 who) < cplOld then js_shl (cpl (segs c1 who)) 2 + TSS_CPL0_SP else TSS_TASK_SP);
          offSS = (if cpl (segs c1 who) < cplOld then offSP + 2 else TSS_TASK_SS);
          c2 = setSS X (getShort c1 (addrNew + offSS)) True c1;
          c3 = setSP X (getShort c2 (addrNew + offSP)) c2
      in case seg_load_with ld8 SegLDT (getShort c3 (addrNew + TSS_TASK_LDT)) False c3 of
           None \<Rightarrow> None
         | Some (r, c4) \<Rightarrow>
             let c5 = (if fNest then setShort (addrNew + TSS_PREV_TSS) selOld c4 else c4)
             in Some (True, c5\<lparr>regCR0 := js_or (regCR0 c5) CR0_MSW_TS\<rparr>))"

definition switchTSS_with :: "loadDesc8_fn \<Rightarrow> cpu_ops \<Rightarrow> segreg \<Rightarrow> int \<Rightarrow> bool \<Rightarrow> cpu \<Rightarrow> (bool \<times> cpu) option" where
  "switchTSS_with ld8 X who selNew fNest c =
     (let addrOld = base (segs c SegTSS);
          cplOld = cpl (segs c who);
          selOld = sel (segs c SegTSS)
      in if \<not> fNest \<and> type (segs c SegTSS) \<noteq> ACC_TYPE_TSS_BUSY
         then Some (False, fnFault TS_FAULT selNew True c)
         else
           let c1 = (if \<not> fNest
                     then setShort (addrDesc (segs c SegTSS) + DESC_ACC_OFFSET)
                            (js_or (js_and (acc (segs c SegTSS)) (js_not ACC_TYPE_TSS_BUSY)) ACC_TYPE_TSS) c
                     else c)
           in case seg_load_with ld8 SegTSS selNew False c1 of
                None \<Rightarrow> None
              | Some (r, c2) \<Rightarrow>
                  if r = ADDR_INVALID then Some (False, c2)
                  else
                    let addrNew = base (segs c2 SegTSS)
                    in if fNest \<and> type (segs c2 SegTSS) = ACC_TYPE_TSS_BUSY
                       then Some (False, fnFault GP_FAULT selNew True c2)
                       else
                         let c3 = (if fNest
                                   then (let c' = this_update SegTSS (\<lambda>t. t\<lparr>acc := js_or (acc t) ACC_TYPE_TSS_BUSY\<rparr>) c2;
                                             c'' = setShort (addrDesc (segs c' SegTSS) + DESC_ACC_OFFSET) (acc (segs c' SegTSS)) c'
                                         in this_update SegTSS (\<lambda>t. t\<lparr>type := ACC_TYPE_TSS_BUSY\<rparr>) c'')
                                   else c2);
                             c4 = switchTSS_regs X addrNew fNest (switchTSS_save X addrOld c3)
                         in case seg_load_with ld8 SegES (getShort c4 (addrNew + TSS_TASK_ES)) False c4 of
                              None \<Rightarrow> None
                            | Some (r1, c5) \<Rightarrow>
                                (case seg_load_with ld8 SegDS (getShort c5 (addrNew + TSS_TASK_DS)) False c5 of
                                   None \<Rightarrow> None
                                 | Some (r2, c6) \<Rightarrow> switchTSS_finish ld8 X who addrNew cplOld selOld fNest c6))"

text \<open>
  The CODE role of \<open>loadDesc8\<close> (lines 619-737). \<open>loadDesc8_retf\<close> is the restoring of the
  stack of lines 648-651, \<open>loadDesc8_parms_get\<close> and \<open>loadDesc8_parms_push\<close> are the two
  loops over \<open>awParms\<close> (lines 707-710 and 720), \<open>loadDesc8_stack\<close> the switch of the stack
  of lines 705-721, and \<open>loadDesc8_gate\<close> the block for call, interrupt and trap gates
  (lines 680-730), with \<open>rpl\<close>, \<open>regPSMask\<close> and \<open>nFaultError\<close> as lines 655-672 set them.
\<close>

definition loadDesc8_retf :: "cpu_ops \<Rightarrow> segreg \<Rightarrow> cpu \<Rightarrow> cpu" where
  "loadDesc8_retf X who c =
     (let (regSP, c1) = popWord X c;
          (selSS, c2) = popWord X c1;
          c3 = setSS X selSS True c2;
          c4 = setSP X regSP c3
      in this_update who (\<lambda>this. this\<lparr>fStackSwitch := True\<rparr>) c4)"

primrec loadDesc8_parms_get :: "nat \<Rightarrow> cpu_ops \<Rightarrow> segreg \<Rightarrow> nat \<Rightarrow> int \<Rightarrow> cpu \<Rightarrow> cpu" where
  "loadDesc8_parms_get 0 X who i regSP c = c"
| "loadDesc8_parms_get (Suc nWords) X who i regSP c =
     (let (w, c1) = getSOWord X SegSS regSP c
      in loadDesc8_parms_get nWords X who (Suc i) (regSP + 2)
           (this_update who (\<lambda>this. this\<lparr>awParms := (awParms this)[i := w]\<rparr>) c1))"

primrec loadDesc8_parms_push :: "nat \<Rightarrow> cpu_ops \<Rightarrow> segreg \<Rightarrow> cpu \<Rightarrow> cpu" where
  "loadDesc8_parms_push 0 X who c = c"
| "loadDesc8_parms_push (Suc i) X who c =
     loadDesc8_parms_push i X who (pushWord X (awParms (segs c who) ! i) c)"

definition loadDesc8_stack :: "cpu_ops \<Rightarrow> segreg \<Rightarrow> int \<Rightarrow> cpu \<Rightarrow> cpu" where
  "loadDesc8_stack X who acc0 c =
     (let nWords = nat (js_and acc0 0x1f);
          c1 = loadDesc8_parms_get nWords X who 0 (getSP X c) c;
          addrTSS = base (segs c1 SegTSS);
          offSP = js_shl (cpl (segs c1 who)) 2 + TSS_CPL0_SP;
          offSS = offSP + 2;
          regSSPrev = getSS X c1;
          regSPPrev = getSP X c1;
          c2 = setSS X (getShort c1 (addrTSS + offSS)) True c1;
          c3 = setSP X (getShort c2 (addrTSS + offSP)) c2;
          c4 = pushWord X regSSPrev c3;
          c5 = pushWord X regSPPrev c4;
          c6 = loadDesc8_parms_push nWords X who c5
      in this_update who (\<lambda>this. this\<lparr>fStackSwitch := True\<rparr>) c6)"

definition loadDesc8_gate ::
  "loadDesc8_fn \<Rightarrow> cpu_ops \<Rightarrow> segreg \<Rightarrow> desc \<Rightarrow> bool option \<Rightarrow> int \<Rightarrow> int \<Rightarrow> int \<Rightarrow> bool \<Rightarrow> cpu
     \<Rightarrow> (int \<times> cpu) option" where
  "loadDesc8_gate ld8 X who d fCall0 rpl regPSMask nFaultError fSuppress c =
     (let selCode = js_and (d_base d) 0xffff;
          dpl0 = js_sar (js_and (d_acc d) ACC_DPL_MASK) ACC_DPL_SHIFT
      in if rpl \<le> dpl0 then
           let cplPrev = cpl (segs c who)
           in case seg_load_with ld8 who selCode True c of
                None \<Rightarrow> None
              | Some (r, c1) \<Rightarrow>
                  if r = ADDR_INVALID then Some (ADDR_INVALID, c1)
                  else
                    let c2 = c1\<lparr>regEIP := d_limit d\<rparr>
                    in if cpl (segs c2 who) < cplPrev then
                         if fCall0 \<noteq> Some True then Some (ADDR_INVALID, c2)
                         else
                           let c3 = loadDesc8_stack X who (d_acc d) c2;
                               c4 = c3\<lparr>regPS := js_and (regPS c3) regPSMask\<rparr>
                           in Some (base (segs c4 who), c4)
                       else
                         let c4 = c2\<lparr>regPS := js_and (regPS c2) regPSMask\<rparr>
                         in Some (base (segs c4 who), c4)
         else Some (ADDR_INVALID, fault_unless fSuppress GP_FAULT nFaultError True c))"

definition loadDesc8_code ::
  "loadDesc8_fn \<Rightarrow> cpu_ops \<Rightarrow> segreg \<Rightarrow> int \<Rightarrow> int \<Rightarrow> bool \<Rightarrow> desc \<Rightarrow> cpu \<Rightarrow> (int \<times> cpu) option" where
  "loadDesc8_code ld8 X who a s fSuppress d c0 =
     (let c = this_update who (\<lambda>this. this\<lparr>fStackSwitch := False\<rparr>) c0;
          fCall0 = fCall (segs c who);
          rpl = js_and s SEL_RPL;
          dpl0 = js_sar (js_and (d_acc d) ACC_DPL_MASK) ACC_DPL_SHIFT
      in if js_and s SEL_MASK \<noteq> 0 \<and> js_and (d_acc d) ACC_PRESENT = 0
         then Some (ADDR_INVALID, fault_unless fSuppress NP_FAULT s False c)
         else if d_type d \<ge> ACC_TYPE_CODE_EXECONLY then
           if rpl > cpl (segs c who) then
             if fCall0 \<noteq> Some False \<and>
                \<not> (dpl0 = cpl (segs c who) \<or>
                   (js_and (d_acc d) ACC_TYPE_CONFORMING \<noteq> 0 \<and> dpl0 \<le> cpl (segs c who)))
             then Some (ADDR_INVALID, c)
             else Some (d_base d, loadDesc8_install who s d a (loadDesc8_retf X who c))
           else Some (d_base d, loadDesc8_install who s d a c)
         else if d_type d = ACC_TYPE_GATE_CALL then
           loadDesc8_gate ld8 X who d fCall0 (if rpl < cpl (segs c who) then cpl (segs c who) else rpl)
             (js_not 0) s fSuppress c
         else if d_type d = ACC_TYPE_GATE_INT then
           loadDesc8_gate ld8 X who d fCall0 rpl (js_not (js_or (js_or PS_NT PS_TF) PS_IF))
             (js_or s ERRCODE_EXT) fSuppress c
         else if d_type d = ACC_TYPE_GATE_TRAP then
           loadDesc8_gate ld8 X who d fCall0 rpl (js_not (js_or PS_NT PS_TF))
             (js_or s ERRCODE_EXT) fSuppress c
         else if d_type d = ACC_TYPE_GATE_TASK then
           (case switchTSS_with ld8 X who (js_and (d_base d) 0xffff) True c of
              None \<Rightarrow> None
            | Some (ok, c1) \<Rightarrow> if \<not> ok then Some (ADDR_INVALID, c1) else Some (base (segs c1 who), c1))
         else Some (ADDR_INVALID, fault_unless fSuppress GP_FAULT s True c))"

text \<open>
  \<open>loadDesc8\<close> itself. A gate makes it call itself through \<open>load\<close>, and a gate that names
  a gate does so again, without a bound in the code; the first argument bounds the depth
  of these calls, and \<open>None\<close> means that the bound was reached. \<open>seg_load\<close>, \<open>loadProt\<close>
  and \<open>switchTSS\<close> are the methods of the source, with that bound.
\<close>

primrec loadDesc8 :: "nat \<Rightarrow> cpu_ops \<Rightarrow> loadDesc8_fn" where
  "loadDesc8 0 X = (\<lambda>who a s fSuppress c. None)"
| "loadDesc8 (Suc n) X =
     (\<lambda>who a s fSuppress c.
        let d = loadDesc8_fetch c a in
        if seg_id (segs c who) = ID_CODE then loadDesc8_code (loadDesc8 n X) X who a s fSuppress d c
        else (case loadDesc8_reject (seg_id (segs c who)) s d fSuppress c of
                Some c' \<Rightarrow> Some (ADDR_INVALID, c')
              | None \<Rightarrow> Some (d_base d, loadDesc8_install who s d a c)))"

definition seg_load :: "nat \<Rightarrow> cpu_ops \<Rightarrow> segreg \<Rightarrow> int \<Rightarrow> bool \<Rightarrow> cpu \<Rightarrow> (int \<times> cpu) option" where
  "seg_load n X = seg_load_with (loadDesc8 n X)"

definition loadProt :: "nat \<Rightarrow> cpu_ops \<Rightarrow> segreg \<Rightarrow> int \<Rightarrow> bool \<Rightarrow> cpu \<Rightarrow> (int \<times> cpu) option" where
  "loadProt n X = loadProt_with (loadDesc8 n X)"

definition switchTSS :: "nat \<Rightarrow> cpu_ops \<Rightarrow> segreg \<Rightarrow> int \<Rightarrow> bool \<Rightarrow> cpu \<Rightarrow> (bool \<times> cpu) option" where
  "switchTSS n X = switchTSS_with (loadDesc8 n X) X"

text \<open>
  The constructor \<open>X86Seg(cpu, id, sName, fProt)\<close>, lines 64-105. \<open>new_X86Seg\<close> holds the
  fields as they are assigned before the call of \<open>updateMode(true, fProt)\<close>, which then
  fills the four method slots (here they start as the real-mode methods). The 32
  elements of \<open>awParms\<close> of the code segment register start as holes, here zeros.
\<close>

definition new_X86Seg :: "seg_ident \<Rightarrow> seg" where
  "new_X86Seg i =
     \<lparr> seg_id = i, sel = 0, limit = 0xffff, offMax = 0xffff + 1, base = 0, acc = 0, type = 0,
       ext = 0, cpl = 0, dpl = 0, addrDesc = ADDR_INVALID, dataSize = 2, addrSize = 2,
       dataMask = 0xffff, addrMask = 0xffff,
       awParms = (if i = ID_CODE then replicate 32 0 else []),
       fCall = None, fStackSwitch = False, fExpDown = False,
       load = loadReal_slot, loadIDT = loadIDTReal_slot,
       checkRead = checkReadReal_slot, checkWrite = checkWriteReal_slot \<rparr>"

definition X86Seg :: "segreg \<Rightarrow> seg_ident \<Rightarrow> bool option \<Rightarrow> cpu \<Rightarrow> cpu" where
  "X86Seg who i fProt c = snd (updateMode who True fProt (c\<lparr>segs := (segs c)(who := new_X86Seg i)\<rparr>))"

subsection \<open>Example machines\<close>

text \<open>
  An 80286 in real mode, with the segment registers CS, DS, ES, SS, TSS and LDT made by
  the constructor, and a descriptor table of five entries at linear address \<open>0x1000\<close>:
  the null descriptor; at selector \<open>0x08\<close> a readable code segment with base \<open>0x020000\<close>,
  limit \<open>0xFFFF\<close> and privilege level 0; at \<open>0x10\<close> a writable expand-down data segment
  with base \<open>0x030000\<close> and limit \<open>0x0FFF\<close>; at \<open>0x18\<close> a writable data segment with base
  \<open>0x040000\<close> and limit \<open>0xFFFF\<close>; at \<open>0x20\<close> a readable code segment with base \<open>0x050000\<close>,
  limit \<open>0xFFFF\<close> and privilege level 3. All four are present, not conforming and not yet
  accessed.
  \<open>example_prot\<close> is the same machine after the PE bit of CR0 was set and every segment
  register was told of the new mode with \<open>updateMode(false, true)\<close>. \<open>example_ops\<close> are
  operations of a CPU that has no stack: popping yields 0 and nothing else has an effect.
\<close>

definition mem_of :: "int \<Rightarrow> int list \<Rightarrow> int \<Rightarrow> int" where
  "mem_of start bytes a =
     (if start \<le> a \<and> a < start + int (length bytes) then bytes ! nat (a - start) else 0)"

definition example_gdt :: "int list" where
  "example_gdt =
     [0x00, 0x00, 0x00, 0x00, 0x00, 0x00, 0x00, 0x00,
      0xFF, 0xFF, 0x00, 0x00, 0x02, 0x9A, 0x00, 0x00,
      0xFF, 0x0F, 0x00, 0x00, 0x03, 0x96, 0x00, 0x00,
      0xFF, 0xFF, 0x00, 0x00, 0x04, 0x92, 0x00, 0x00,
      0xFF, 0xFF, 0x00, 0x00, 0x05, 0xFA, 0x00, 0x00]"

definition example_ops :: cpu_ops where
  "example_ops =
     \<lparr> popWord = (\<lambda>c. (0, c)), pushWord = (\<lambda>w c. c), setSS = (\<lambda>s f c. c), setSP = (\<lambda>w c. c),
       getSP = (\<lambda>c. 0), getSS = (\<lambda>c. sel (segs c SegSS)), getSOWord = (\<lambda>who off c. (0, c)),
       getIP = regEIP, getPS = regPS, setPS = (\<lambda>w c. c\<lparr>regPS := w\<rparr>),
       setCSIP = (\<lambda>off s c. c\<lparr>regEIP := off\<rparr>) \<rparr>"

definition example_real :: cpu where
  "example_real =
     X86Seg SegLDT ID_LDT (Some True) (X86Seg SegTSS ID_TSS (Some True)
       (X86Seg SegSS ID_STACK None (X86Seg SegES ID_DATA None
         (X86Seg SegDS ID_DATA None (X86Seg SegCS ID_CODE None
           \<lparr> I386 = False, model = 80286, regCR0 = 0, regEIP = 0, regPS = 2, regEAX = 0,
             regECX = 0, regEDX = 0, regEBX = 0, regEBP = 0, regESI = 0, regEDI = 0,
             nStepCycles = 0, addrGDT = 0x1000, addrGDTLimit = 0x1027, addrIDT = 0,
             addrIDTLimit = 0x3FF, mem = mem_of 0x1000 example_gdt, faults = [],
             segs = (\<lambda>who. new_X86Seg ID_NULL) \<rparr>)))))"

definition example_prot :: cpu where
  "example_prot =
     snd (updateMode SegSS False (Some True)
       (snd (updateMode SegES False (Some True)
         (snd (updateMode SegDS False (Some True)
           (snd (updateMode SegCS False (Some True) (example_real\<lparr>regCR0 := 1\<rparr>))))))))"

text \<open>
  \<open>example_stack\<close> is the protected-mode machine after \<open>SS.load(0x10)\<close>, and \<open>example_far\<close>
  the same machine after \<open>CS.load(0x0B)\<close>, the code segment requested with privilege
  level 3.
\<close>

definition example_stack :: cpu where
  "example_stack =
     (case seg_load 1 example_ops SegSS 0x10 False example_prot of
        Some (r, c') \<Rightarrow> c' | None \<Rightarrow> example_prot)"

definition example_far :: cpu where
  "example_far =
     (case seg_load 1 example_ops SegCS 0x0B False example_prot of
        Some (r, c') \<Rightarrow> c' | None \<Rightarrow> example_prot)"

section \<open>Facts about the number operations\<close>




section \<open>Properties of the bus\<close>

subsection \<open>addBlocks on an occupied region\<close>

lemma ToUint32_id: "0 \<le> a \<Longrightarrow> a < 2 ^ 32 \<Longrightarrow> ToUint32 a = a"
  by (simp add: ToUint32_def take_bit_int_eq_self)

lemma js_shr_div:
  assumes "0 \<le> a" "a < 2 ^ 32" "0 \<le> n" "n < 32"
  shows "js_shr a n = a div 2 ^ nat n"
proof -
  have "ToUint32 n = n" using assms by (intro ToUint32_id) auto
  moreover have "n mod 32 = n" using assms by simp
  ultimately show ?thesis using assms
    by (simp add: js_shr_def ToUint32_id drop_bit_eq_div)
qed

lemma replicate_2: "replicate 2 x = [x, x]"
  by (simp add: numeral_2_eq_2)

lemma example_bus_eq:
  "example_bus = \<lparr> addrWidth = 11, dataWidth = 8, addrTotal = 2048, addrLimit = 2047,
      blockSize = 1024, blockTotal = 2, blockShift = 10, blockLimit = 1023,
      blocks = [Some 0, Some 1],
      heap = (\<lambda>r. new_Memory None None 0 None)(0 := new_Memory None None 1024 None,
                1 := new_Memory (Some TYPE_RAM) (Some 1024) 1024 None),
      nextRef = 2 \<rparr>"
  by (simp add: example_bus_def Bus_def js_default_def log2_floor.simps js_quot32_def js_shl_def
        ToInt32_def ToUint32_def alloc_def Bus_fill.simps addBlocks_def addBlocks_loop.simps
        addBlocks_blockNew_def js_shr_def new_Memory_def Let_def replicate_2)

lemma addBlocks_blockNew_blocks [simp]:
  "blocks (snd (addBlocks_blockNew ty block addrNext sizeBlock offset bus)) = blocks bus"
  by (simp add: addBlocks_blockNew_def alloc_def split: option.splits)

lemma blockNew_facts:
  fixes ty addrNext sizeBlock offset
  assumes "refs_ok bus block"
  defines "new \<equiv> addBlocks_blockNew ty block addrNext sizeBlock offset bus"
  shows "fst new = replacement bus block 0"
    and "blockSize (snd new) = blockSize bus"
    and "\<forall>r<nextRef bus. heap (snd new) r = heap bus r"
    and "fst new < nextRef (snd new)"
    and "nextRef bus \<le> nextRef (snd new)"
    and "replacement (snd new) block i = replacement bus block (Suc i)"
  using assms(1)
  by (auto simp: new_def addBlocks_blockNew_def alloc_def replacement_def refs_ok_def
           split: option.splits)

lemma addBlocks_loop_conflict:
  fixes bus :: "'f bus"
  assumes "k - iBlock = n" "iBlock \<le> k" "k < length (blocks bus)" "0 < blockSize bus"
    and "holds_block bus k"
    and "\<forall>j. iBlock \<le> j \<and> j < k \<longrightarrow> \<not> holds_block bus j"
    and "refs_ok bus block"
    and "0 < sizeLeft" "int k * blockSize bus < addrNext + sizeLeft"
    and "int iBlock * blockSize bus \<le> addrNext" "addrNext < (int iBlock + 1) * blockSize bus"
  shows "\<exists>bus'. addBlocks_loop ty block addrNext sizeLeft offset iBlock bus = (False, bus') \<and>
           length (blocks bus') = length (blocks bus) \<and>
           (\<forall>j. j < iBlock \<or> k \<le> j \<longrightarrow> blocks bus' ! j = blocks bus ! j) \<and>
           (\<forall>j. iBlock \<le> j \<and> j < k \<longrightarrow> blocks bus' ! j = Some (replacement bus block (j - iBlock))) \<and>
           (\<forall>r<nextRef bus. heap bus' r = heap bus r)"
  using assms
proof (induction n arbitrary: iBlock bus addrNext sizeLeft offset)
  case 0
  then have "iBlock = k" by simp
  with 0 show ?case
    by (subst addBlocks_loop.simps) (auto simp: holds_block_def split: option.splits)
next
  case (Suc n)
  let ?bs = "blockSize bus"
  have lt: "iBlock < k" using Suc.prems by simp
  have nc: "\<not> holds_block bus iBlock" using Suc.prems lt by simp
  let ?sb0 = "?bs - (addrNext - int iBlock * ?bs)"
  have "int (Suc iBlock) * ?bs \<le> int k * ?bs"
    using lt Suc.prems(4) by (intro mult_right_mono) auto
  then have sb: "?sb0 < sizeLeft" "0 < ?sb0"
    using Suc.prems by (auto simp: algebra_simps)
  define new where "new = addBlocks_blockNew ty block addrNext ?sb0 offset bus"
  define bus1 where "bus1 = (snd new)\<lparr>blocks := (blocks (snd new))[iBlock := Some (fst new)]\<rparr>"
  note nf = blockNew_facts[OF Suc.prems(7), of ty addrNext ?sb0 offset, folded new_def]
  have step: "addBlocks_loop ty block addrNext sizeLeft offset iBlock bus =
        addBlocks_loop ty block (int iBlock * ?bs + ?bs) (sizeLeft - ?sb0) (offset + ?sb0) (Suc iBlock) bus1"
    using nc lt Suc.prems(3,8) sb
    by (subst addBlocks_loop.simps) (simp add: holds_block_def Let_def new_def bus1_def split: option.splits)
  have b1: "blocks bus1 = (blocks bus)[iBlock := Some (fst new)]" "blockSize bus1 = ?bs"
       "nextRef bus1 = nextRef (snd new)" "heap bus1 = heap (snd new)"
    using nf(2) by (simp_all add: bus1_def new_def)
  have hb: "holds_block bus1 j = holds_block bus j" if "j \<noteq> iBlock" "j < length (blocks bus)" for j
    using that Suc.prems(7) nf(3) by (auto simp: holds_block_def b1 refs_ok_def split: option.splits)
  have ro: "refs_ok bus1 block"
    using Suc.prems(7) nf(4,5) lt Suc.prems(3)
    by (auto simp: refs_ok_def b1 nth_list_update split: if_splits) fastforce+
  have "\<exists>bus'. addBlocks_loop ty block (int iBlock * ?bs + ?bs) (sizeLeft - ?sb0) (offset + ?sb0) (Suc iBlock) bus1 = (False, bus') \<and>
           length (blocks bus') = length (blocks bus1) \<and>
           (\<forall>j. j < Suc iBlock \<or> k \<le> j \<longrightarrow> blocks bus' ! j = blocks bus1 ! j) \<and>
           (\<forall>j. Suc iBlock \<le> j \<and> j < k \<longrightarrow> blocks bus' ! j = Some (replacement bus1 block (j - Suc iBlock))) \<and>
           (\<forall>r<nextRef bus1. heap bus' r = heap bus1 r)"
  proof (rule Suc.IH)
    show "k - Suc iBlock = n" using Suc.prems by simp
    show "Suc iBlock \<le> k" using lt by simp
    show "k < length (blocks bus1)" using Suc.prems by (simp add: b1)
    show "0 < blockSize bus1" using Suc.prems by (simp add: b1)
    show "holds_block bus1 k" using hb[of k] lt Suc.prems by simp
    show "\<forall>j. Suc iBlock \<le> j \<and> j < k \<longrightarrow> \<not> holds_block bus1 j"
      using hb Suc.prems by auto
    show "refs_ok bus1 block" by (rule ro)
    show "0 < sizeLeft - ?sb0" using sb by simp
    show "int k * blockSize bus1 < int iBlock * ?bs + ?bs + (sizeLeft - ?sb0)"
      using Suc.prems by (simp add: b1 algebra_simps)
    show "int (Suc iBlock) * blockSize bus1 \<le> int iBlock * ?bs + ?bs"
      by (simp add: b1 algebra_simps)
    show "int iBlock * ?bs + ?bs < (int (Suc iBlock) + 1) * blockSize bus1"
      using Suc.prems by (simp add: b1 algebra_simps)
  qed
  then obtain bus' where r:
    "addBlocks_loop ty block (int iBlock * ?bs + ?bs) (sizeLeft - ?sb0) (offset + ?sb0) (Suc iBlock) bus1 = (False, bus')"
    "length (blocks bus') = length (blocks bus1)"
    "\<forall>j. j < Suc iBlock \<or> k \<le> j \<longrightarrow> blocks bus' ! j = blocks bus1 ! j"
    "\<forall>j. Suc iBlock \<le> j \<and> j < k \<longrightarrow> blocks bus' ! j = Some (replacement bus1 block (j - Suc iBlock))"
    "\<forall>r<nextRef bus1. heap bus' r = heap bus1 r"
    by blast
  have rep: "replacement bus1 block i = replacement bus block (Suc i)" for i
  proof -
    have "replacement bus1 block i = replacement (snd new) block i"
      by (cases block) (simp_all add: replacement_def bus1_def)
    then show ?thesis using nf(6)[of i] by simp
  qed
  have c1: "length (blocks bus') = length (blocks bus)" using r(2) by (simp add: b1)
  have c2: "\<forall>j. j < iBlock \<or> k \<le> j \<longrightarrow> blocks bus' ! j = blocks bus ! j"
    using r(3) lt by (auto simp: b1)
  have c3: "\<forall>j. iBlock \<le> j \<and> j < k \<longrightarrow> blocks bus' ! j = Some (replacement bus block (j - iBlock))"
  proof (intro allI impI)
    fix j assume j: "iBlock \<le> j \<and> j < k"
    show "blocks bus' ! j = Some (replacement bus block (j - iBlock))"
    proof (cases "j = iBlock")
      case True
      then show ?thesis using r(3) Suc.prems(3) lt nf(1) by (simp add: b1)
    next
      case False
      then have "Suc iBlock \<le> j" using j by simp
      then show ?thesis using r(4) j rep by (simp add: Suc_diff_Suc)
    qed
  qed
  have c4: "\<forall>r<nextRef bus. heap bus' r = heap bus r"
    using r(5) nf(3,5) by (auto simp: b1)
  show ?case using step r(1) c1 c2 c3 c4 by simp
qed


text \<open>
  Claim C1, as amended. When an index covered by the request holds a block whose type is
  not \<open>NONE\<close>, and \<open>k\<close> is the first such index, \<open>addBlocks\<close> returns \<open>false\<close>; the table
  keeps its length, every entry from \<open>k\<close> on and every entry before the request's first
  index is unchanged, and the entries of the request's indices before \<open>k\<close> have already
  been replaced (by the given block when it has the bus's block size, by fresh blocks
  otherwise). The objects that existed before are unchanged.
\<close>

theorem addBlocks_conflict:
  fixes bus :: "'f bus"
  assumes "block_geometry bus" "refs_ok bus block"
    and "0 \<le> a" "a < 2 ^ 32" "0 < sz"
    and "covered bus a sz k" "holds_block bus k"
    and "\<forall>j. covered bus a sz j \<and> j < k \<longrightarrow> \<not> holds_block bus j"
  shows "\<exists>bus'. addBlocks a sz ty block bus = (False, bus') \<and>
           length (blocks bus') = length (blocks bus) \<and>
           (\<forall>j. j < nat (js_shr a (blockShift bus)) \<or> k \<le> j \<longrightarrow> blocks bus' ! j = blocks bus ! j) \<and>
           (\<forall>j. nat (js_shr a (blockShift bus)) \<le> j \<and> j < k \<longrightarrow>
                blocks bus' ! j = Some (replacement bus block (j - nat (js_shr a (blockShift bus))))) \<and>
           (\<forall>r<nextRef bus. heap bus' r = heap bus r)"
proof -
  let ?i = "nat (js_shr a (blockShift bus))"
  let ?bs = "blockSize bus"
  have g: "0 \<le> blockShift bus" "blockShift bus < 32" "?bs = 2 ^ nat (blockShift bus)"
    using assms(1) by (auto simp: block_geometry_def)
  have i: "int ?i = a div ?bs"
    using js_shr_div[OF assms(3,4) g(1,2)] assms(3) g(3) by (simp add: pos_imp_zdiv_nonneg_iff)
  have pos: "0 < ?bs" using g(3) by simp
  have m: "0 \<le> a mod ?bs" "a mod ?bs < ?bs" using pos by simp_all
  have d: "a = (a div ?bs) * ?bs + a mod ?bs" by simp
  have lo: "int ?i * ?bs \<le> a"
  proof -
    have "a div ?bs * ?bs \<le> a" using d m(1) by linarith
    then show ?thesis by (simp only: i)
  qed
  have hi: "a < (int ?i + 1) * ?bs"
  proof -
    have "(int ?i + 1) * ?bs = (a div ?bs) * ?bs + ?bs" by (simp only: i) (simp add: algebra_simps)
    then show ?thesis using d m(2) by linarith
  qed
  have c: "?i \<le> k" "int k * ?bs < a + sz" "k < length (blocks bus)"
    using assms(6) by (auto simp: covered_def)
  have free: "\<forall>j. ?i \<le> j \<and> j < k \<longrightarrow> \<not> holds_block bus j"
  proof (intro allI impI)
    fix j assume j: "?i \<le> j \<and> j < k"
    then have "int j * ?bs \<le> int k * ?bs" using pos by (intro mult_right_mono) auto
    then have "covered bus a sz j" using j c by (auto simp: covered_def)
    then show "\<not> holds_block bus j" using assms(8) j by blast
  qed
  show ?thesis
    unfolding addBlocks_def
    by (rule addBlocks_loop_conflict[OF refl c(1) c(3) pos assms(7) free assms(2) assms(5) c(2) lo hi])
qed

theorem addBlocks_conflict_witness:
  "block_geometry example_bus \<and> refs_ok example_bus None \<and> covered example_bus 0 2048 1 \<and>
   holds_block example_bus 1 \<and> \<not> holds_block example_bus 0 \<and>
   (\<exists>bus'. addBlocks 0 2048 TYPE_RAM None example_bus = (False, bus') \<and>
      length (blocks bus') = 2 \<and> blocks bus' ! 1 = Some 1 \<and> blocks bus' ! 0 = Some 2)"
proof -
  have g: "block_geometry example_bus" by (simp add: example_bus_eq block_geometry_def)
  have r: "refs_ok example_bus None"
    by (auto simp: example_bus_eq refs_ok_def nth_Cons split: nat.splits)
  have c: "covered example_bus 0 2048 1"
    by (simp add: example_bus_eq covered_def js_shr_def ToUint32_def)
  have h: "holds_block example_bus 1" "\<not> holds_block example_bus 0"
    by (simp_all add: example_bus_eq holds_block_def new_Memory_def)
  have f: "\<forall>j. covered example_bus 0 2048 j \<and> j < 1 \<longrightarrow> \<not> holds_block example_bus j"
    using h(2) by auto
  have s: "nat (js_shr 0 (blockShift example_bus)) = 0"
    by (simp add: example_bus_eq js_shr_def ToUint32_def)
  have l: "length (blocks example_bus) = 2" "blocks example_bus ! 1 = Some 1"
    "replacement example_bus None 0 = 2"
    by (simp_all add: example_bus_eq replacement_def)
  from addBlocks_conflict[OF g r _ _ _ c h(1) f, of TYPE_RAM]
  obtain bus' where b: "addBlocks 0 2048 TYPE_RAM None example_bus = (False, bus')"
    "length (blocks bus') = length (blocks example_bus)"
    "\<forall>j. j < nat (js_shr 0 (blockShift example_bus)) \<or> 1 \<le> j \<longrightarrow> blocks bus' ! j = blocks example_bus ! j"
    "\<forall>j. nat (js_shr 0 (blockShift example_bus)) \<le> j \<and> j < 1 \<longrightarrow>
         blocks bus' ! j = Some (replacement example_bus None (j - nat (js_shr 0 (blockShift example_bus))))"
    by auto
  have "blocks bus' ! 1 = Some 1" using b(3) l by simp
  moreover have "blocks bus' ! 0 = Some 2" using b(4) s l by simp
  ultimately show ?thesis using g r c h b(1,2) l by simp
qed

text \<open>
  Claim C1 as stated fails: on the example bus, \<open>addBlocks(0, 2048, RAM)\<close> covers index 1,
  which holds RAM; the call returns \<open>false\<close>, but index 0 has been replaced by a new block.
\<close>

theorem addBlocks_unchanged_counterexample:
  "covered example_bus 0 2048 1 \<and> holds_block example_bus 1 \<and>
   fst (addBlocks 0 2048 TYPE_RAM None example_bus) = False \<and>
   blocks example_bus = [Some 0, Some 1] \<and>
   blocks (snd (addBlocks 0 2048 TYPE_RAM None example_bus)) = [Some 2, Some 1]"
  by (simp add: example_bus_eq covered_def holds_block_def new_Memory_def js_shr_def ToUint32_def
        addBlocks_def addBlocks_loop.simps addBlocks_blockNew_def alloc_def Let_def)

subsection \<open>Trap reference counting\<close>

lemma blocks_at_heap [simp]: "blocks_at (bus\<lparr>heap := h\<rparr>) i = blocks_at bus i"
  by (simp add: blocks_at_def)

lemma repeat_call_add:
  "repeat_call (m + k) call s =
     (case repeat_call m call s of None \<Rightarrow> None | Some s' \<Rightarrow> repeat_call k call s')"
  by (induction m arbitrary: s) (auto split: sum.splits prod.splits)

lemma trapRead_n:
  assumes "blocks_at bus (js_shr a (blockShift bus)) = Some r"
    and "readTrap (heap bus r) = Some f" "0 < nReadTraps (heap bus r)"
  shows "repeat_call n (trapRead a f) bus =
           Some (bus\<lparr>heap := (heap bus)(r := (heap bus r)\<lparr>nReadTraps := nReadTraps (heap bus r) + n\<rparr>)\<rparr>)"
  using assms
proof (induction n arbitrary: bus)
  case 0
  then show ?case by simp
next
  case (Suc n)
  let ?bus1 = "bus\<lparr>heap := (heap bus)(r := (heap bus r)\<lparr>nReadTraps := Suc (nReadTraps (heap bus r))\<rparr>)\<rparr>"
  have s: "trapRead a f bus = Inr (True, ?bus1)"
    using Suc.prems by (simp add: trapRead_def Let_def)
  have ih: "repeat_call n (trapRead a f) ?bus1 =
      Some (?bus1\<lparr>heap := (heap ?bus1)(r := (heap ?bus1 r)\<lparr>nReadTraps := nReadTraps (heap ?bus1 r) + n\<rparr>)\<rparr>)"
    by (rule Suc.IH) (use Suc.prems in simp_all)
  have eq: "?bus1\<lparr>heap := (heap ?bus1)(r := (heap ?bus1 r)\<lparr>nReadTraps := nReadTraps (heap ?bus1 r) + n\<rparr>)\<rparr>
      = bus\<lparr>heap := (heap bus)(r := (heap bus r)\<lparr>nReadTraps := nReadTraps (heap bus r) + Suc n\<rparr>)\<rparr>"
    by simp
  show ?case by (simp only: repeat_call.simps s sum.case prod.case if_True ih eq)
qed

lemma untrapRead_n:
  assumes "blocks_at bus (js_shr a (blockShift bus)) = Some r"
    and "readTrap (heap bus r) = Some f" "n < nReadTraps (heap bus r)"
  shows "repeat_call n (untrapRead a f) bus =
           Some (bus\<lparr>heap := (heap bus)(r := (heap bus r)\<lparr>nReadTraps := nReadTraps (heap bus r) - n\<rparr>)\<rparr>)"
  using assms
proof (induction n arbitrary: bus)
  case 0
  then show ?case by simp
next
  case (Suc n)
  let ?bus1 = "bus\<lparr>heap := (heap bus)(r := (heap bus r)\<lparr>nReadTraps := nReadTraps (heap bus r) - 1\<rparr>)\<rparr>"
  have s: "untrapRead a f bus = Inr (True, ?bus1)"
    using Suc.prems by (simp add: untrapRead_def Let_def)
  have ih: "repeat_call n (untrapRead a f) ?bus1 =
      Some (?bus1\<lparr>heap := (heap ?bus1)(r := (heap ?bus1 r)\<lparr>nReadTraps := nReadTraps (heap ?bus1 r) - n\<rparr>)\<rparr>)"
    by (rule Suc.IH) (use Suc.prems in simp_all)
  have eq: "?bus1\<lparr>heap := (heap ?bus1)(r := (heap ?bus1 r)\<lparr>nReadTraps := nReadTraps (heap ?bus1 r) - n\<rparr>)\<rparr>
      = bus\<lparr>heap := (heap bus)(r := (heap bus r)\<lparr>nReadTraps := nReadTraps (heap bus r) - Suc n\<rparr>)\<rparr>"
    by simp
  show ?case by (simp only: repeat_call.simps s sum.case prod.case if_True ih eq)
qed

lemma read_upd_commute:
  "b\<lparr>readTrap := x, readPrev := y, readData := z, nReadTraps := k\<rparr> =
   b\<lparr>nReadTraps := k, readTrap := x, readPrev := y, readData := z\<rparr>"
  by (rule memory.equality) simp_all

lemma trapRead_repeat:
  assumes at: "blocks_at bus (js_shr a (blockShift bus)) = Some r"
    and ready: "read_trap_ready (heap bus r) f" and n: "0 < n"
  shows "repeat_call n (trapRead a f) bus = Some (set_block bus r (read_trapped (heap bus r) f n))"
proof (cases "nReadTraps (heap bus r) = 0")
  case False
  then show ?thesis
    using trapRead_n[OF at, of f n] ready
    by (simp add: read_trap_ready_def read_trapped_def set_block_def)
next
  case True
  obtain m where m: "n = Suc m" using n by (cases n) auto
  let ?b1 = "(heap bus r)\<lparr>nReadTraps := 1, readTrap := Some f, readPrev := Some (readData (heap bus r)), readData := TrapWrapper\<rparr>"
  let ?bus1 = "bus\<lparr>heap := (heap bus)(r := ?b1)\<rparr>"
  have s: "trapRead a f bus = Inr (True, ?bus1)"
    using at True by (simp add: trapRead_def Let_def)
  have "repeat_call m (trapRead a f) ?bus1 =
      Some (?bus1\<lparr>heap := (heap ?bus1)(r := (heap ?bus1 r)\<lparr>nReadTraps := nReadTraps (heap ?bus1 r) + m\<rparr>)\<rparr>)"
    by (rule trapRead_n) (use at in simp_all)
  moreover have "?bus1\<lparr>heap := (heap ?bus1)(r := (heap ?bus1 r)\<lparr>nReadTraps := nReadTraps (heap ?bus1 r) + m\<rparr>)\<rparr>
      = set_block bus r (read_trapped (heap bus r) f n)"
    using True by (simp add: set_block_def read_trapped_def m read_upd_commute)
  ultimately show ?thesis by (simp only: m repeat_call.simps s sum.case prod.case if_True)
qed

lemma untrapRead_partial:
  assumes at: "blocks_at bus (js_shr a (blockShift bus)) = Some r"
    and ready: "read_trap_ready (heap bus r) f" and n: "0 < n" "j < n"
  shows "repeat_call j (untrapRead a f) (set_block bus r (read_trapped (heap bus r) f n)) =
           Some (set_block bus r (read_trapped (heap bus r) f (n - j)))"
proof -
  let ?busn = "set_block bus r (read_trapped (heap bus r) f n)"
  have "repeat_call j (untrapRead a f) ?busn =
      Some (?busn\<lparr>heap := (heap ?busn)(r := (heap ?busn r)\<lparr>nReadTraps := nReadTraps (heap ?busn r) - j\<rparr>)\<rparr>)"
    by (rule untrapRead_n)
       (use at ready n in \<open>auto simp: set_block_def read_trapped_def read_trap_ready_def\<close>)
  moreover have "?busn\<lparr>heap := (heap ?busn)(r := (heap ?busn r)\<lparr>nReadTraps := nReadTraps (heap ?busn r) - j\<rparr>)\<rparr>
      = set_block bus r (read_trapped (heap bus r) f (n - j))"
    using n by (simp add: set_block_def read_trapped_def read_upd_commute)
  ultimately show ?thesis by simp
qed

lemma untrapRead_last:
  assumes at: "blocks_at bus (js_shr a (blockShift bus)) = Some r"
    and ready: "read_trap_ready (heap bus r) f"
  shows "untrapRead a f (set_block bus r (read_trapped (heap bus r) f 1)) = Inr (True, bus)"
proof (cases "nReadTraps (heap bus r) = 0")
  case True
  have "(heap bus r)\<lparr>nReadTraps := 0, readData := readData (heap bus r), readPrev := None, readTrap := None\<rparr> = heap bus r"
    using True ready by (simp add: read_trap_ready_def)
  then show ?thesis using at True
    by (simp add: untrapRead_def set_block_def read_trapped_def Let_def)
next
  case False
  have "(heap bus r)\<lparr>nReadTraps := nReadTraps (heap bus r)\<rparr> = heap bus r" by simp
  then show ?thesis using at False ready
    by (simp add: untrapRead_def set_block_def read_trapped_def read_trap_ready_def Let_def)
qed

lemma untrapRead_all:
  assumes at: "blocks_at bus (js_shr a (blockShift bus)) = Some r"
    and ready: "read_trap_ready (heap bus r) f" and n: "0 < n"
  shows "repeat_call n (untrapRead a f) (set_block bus r (read_trapped (heap bus r) f n)) = Some bus"
proof -
  obtain m where m: "n = m + 1" using n by (cases n) auto
  have "repeat_call m (untrapRead a f) (set_block bus r (read_trapped (heap bus r) f n)) =
           Some (set_block bus r (read_trapped (heap bus r) f (n - m)))"
    by (rule untrapRead_partial[OF at ready n]) (simp add: m)
  then show ?thesis
    unfolding m repeat_call_add using untrapRead_last[OF at ready] by simp
qed

lemma trapWrite_n:
  assumes "blocks_at bus (js_shr a (blockShift bus)) = Some r"
    and "writeTrap (heap bus r) = Some f" "0 < nWriteTraps (heap bus r)"
  shows "repeat_call n (trapWrite a f) bus =
           Some (bus\<lparr>heap := (heap bus)(r := (heap bus r)\<lparr>nWriteTraps := nWriteTraps (heap bus r) + n\<rparr>)\<rparr>)"
  using assms
proof (induction n arbitrary: bus)
  case 0
  then show ?case by simp
next
  case (Suc n)
  let ?bus1 = "bus\<lparr>heap := (heap bus)(r := (heap bus r)\<lparr>nWriteTraps := Suc (nWriteTraps (heap bus r))\<rparr>)\<rparr>"
  have s: "trapWrite a f bus = Inr (True, ?bus1)"
    using Suc.prems by (simp add: trapWrite_def Let_def)
  have ih: "repeat_call n (trapWrite a f) ?bus1 =
      Some (?bus1\<lparr>heap := (heap ?bus1)(r := (heap ?bus1 r)\<lparr>nWriteTraps := nWriteTraps (heap ?bus1 r) + n\<rparr>)\<rparr>)"
    by (rule Suc.IH) (use Suc.prems in simp_all)
  have eq: "?bus1\<lparr>heap := (heap ?bus1)(r := (heap ?bus1 r)\<lparr>nWriteTraps := nWriteTraps (heap ?bus1 r) + n\<rparr>)\<rparr>
      = bus\<lparr>heap := (heap bus)(r := (heap bus r)\<lparr>nWriteTraps := nWriteTraps (heap bus r) + Suc n\<rparr>)\<rparr>"
    by simp
  show ?case by (simp only: repeat_call.simps s sum.case prod.case if_True ih eq)
qed

lemma untrapWrite_n:
  assumes "blocks_at bus (js_shr a (blockShift bus)) = Some r"
    and "writeTrap (heap bus r) = Some f" "n < nWriteTraps (heap bus r)"
  shows "repeat_call n (untrapWrite a f) bus =
           Some (bus\<lparr>heap := (heap bus)(r := (heap bus r)\<lparr>nWriteTraps := nWriteTraps (heap bus r) - n\<rparr>)\<rparr>)"
  using assms
proof (induction n arbitrary: bus)
  case 0
  then show ?case by simp
next
  case (Suc n)
  let ?bus1 = "bus\<lparr>heap := (heap bus)(r := (heap bus r)\<lparr>nWriteTraps := nWriteTraps (heap bus r) - 1\<rparr>)\<rparr>"
  have s: "untrapWrite a f bus = Inr (True, ?bus1)"
    using Suc.prems by (simp add: untrapWrite_def Let_def)
  have ih: "repeat_call n (untrapWrite a f) ?bus1 =
      Some (?bus1\<lparr>heap := (heap ?bus1)(r := (heap ?bus1 r)\<lparr>nWriteTraps := nWriteTraps (heap ?bus1 r) - n\<rparr>)\<rparr>)"
    by (rule Suc.IH) (use Suc.prems in simp_all)
  have eq: "?bus1\<lparr>heap := (heap ?bus1)(r := (heap ?bus1 r)\<lparr>nWriteTraps := nWriteTraps (heap ?bus1 r) - n\<rparr>)\<rparr>
      = bus\<lparr>heap := (heap bus)(r := (heap bus r)\<lparr>nWriteTraps := nWriteTraps (heap bus r) - Suc n\<rparr>)\<rparr>"
    by simp
  show ?case by (simp only: repeat_call.simps s sum.case prod.case if_True ih eq)
qed

lemma write_upd_commute:
  "b\<lparr>writeTrap := x, writePrev := y, writeData := z, nWriteTraps := k\<rparr> =
   b\<lparr>nWriteTraps := k, writeTrap := x, writePrev := y, writeData := z\<rparr>"
  by (rule memory.equality) simp_all

lemma trapWrite_repeat:
  assumes at: "blocks_at bus (js_shr a (blockShift bus)) = Some r"
    and ready: "write_trap_ready (heap bus r) f" and n: "0 < n"
  shows "repeat_call n (trapWrite a f) bus = Some (set_block bus r (write_trapped (heap bus r) f n))"
proof (cases "nWriteTraps (heap bus r) = 0")
  case False
  then show ?thesis
    using trapWrite_n[OF at, of f n] ready
    by (simp add: write_trap_ready_def write_trapped_def set_block_def)
next
  case True
  obtain m where m: "n = Suc m" using n by (cases n) auto
  let ?b1 = "(heap bus r)\<lparr>nWriteTraps := 1, writeTrap := Some f, writePrev := Some (writeData (heap bus r)), writeData := TrapWrapper\<rparr>"
  let ?bus1 = "bus\<lparr>heap := (heap bus)(r := ?b1)\<rparr>"
  have s: "trapWrite a f bus = Inr (True, ?bus1)"
    using at True by (simp add: trapWrite_def Let_def)
  have "repeat_call m (trapWrite a f) ?bus1 =
      Some (?bus1\<lparr>heap := (heap ?bus1)(r := (heap ?bus1 r)\<lparr>nWriteTraps := nWriteTraps (heap ?bus1 r) + m\<rparr>)\<rparr>)"
    by (rule trapWrite_n) (use at in simp_all)
  moreover have "?bus1\<lparr>heap := (heap ?bus1)(r := (heap ?bus1 r)\<lparr>nWriteTraps := nWriteTraps (heap ?bus1 r) + m\<rparr>)\<rparr>
      = set_block bus r (write_trapped (heap bus r) f n)"
    using True by (simp add: set_block_def write_trapped_def m write_upd_commute)
  ultimately show ?thesis by (simp only: m repeat_call.simps s sum.case prod.case if_True)
qed

lemma untrapWrite_partial:
  assumes at: "blocks_at bus (js_shr a (blockShift bus)) = Some r"
    and ready: "write_trap_ready (heap bus r) f" and n: "0 < n" "j < n"
  shows "repeat_call j (untrapWrite a f) (set_block bus r (write_trapped (heap bus r) f n)) =
           Some (set_block bus r (write_trapped (heap bus r) f (n - j)))"
proof -
  let ?busn = "set_block bus r (write_trapped (heap bus r) f n)"
  have "repeat_call j (untrapWrite a f) ?busn =
      Some (?busn\<lparr>heap := (heap ?busn)(r := (heap ?busn r)\<lparr>nWriteTraps := nWriteTraps (heap ?busn r) - j\<rparr>)\<rparr>)"
    by (rule untrapWrite_n)
       (use at ready n in \<open>auto simp: set_block_def write_trapped_def write_trap_ready_def\<close>)
  moreover have "?busn\<lparr>heap := (heap ?busn)(r := (heap ?busn r)\<lparr>nWriteTraps := nWriteTraps (heap ?busn r) - j\<rparr>)\<rparr>
      = set_block bus r (write_trapped (heap bus r) f (n - j))"
    using n by (simp add: set_block_def write_trapped_def write_upd_commute)
  ultimately show ?thesis by simp
qed

lemma untrapWrite_last:
  assumes at: "blocks_at bus (js_shr a (blockShift bus)) = Some r"
    and ready: "write_trap_ready (heap bus r) f"
  shows "untrapWrite a f (set_block bus r (write_trapped (heap bus r) f 1)) = Inr (True, bus)"
proof (cases "nWriteTraps (heap bus r) = 0")
  case True
  have "(heap bus r)\<lparr>nWriteTraps := 0, writeData := writeData (heap bus r), writePrev := None, writeTrap := None\<rparr> = heap bus r"
    using True ready by (simp add: write_trap_ready_def)
  then show ?thesis using at True
    by (simp add: untrapWrite_def set_block_def write_trapped_def Let_def)
next
  case False
  have "(heap bus r)\<lparr>nWriteTraps := nWriteTraps (heap bus r)\<rparr> = heap bus r" by simp
  then show ?thesis using at False ready
    by (simp add: untrapWrite_def set_block_def write_trapped_def write_trap_ready_def Let_def)
qed

lemma untrapWrite_all:
  assumes at: "blocks_at bus (js_shr a (blockShift bus)) = Some r"
    and ready: "write_trap_ready (heap bus r) f" and n: "0 < n"
  shows "repeat_call n (untrapWrite a f) (set_block bus r (write_trapped (heap bus r) f n)) = Some bus"
proof -
  obtain m where m: "n = m + 1" using n by (cases n) auto
  have "repeat_call m (untrapWrite a f) (set_block bus r (write_trapped (heap bus r) f n)) =
           Some (set_block bus r (write_trapped (heap bus r) f (n - m)))"
    by (rule untrapWrite_partial[OF at ready n]) (simp add: m)
  then show ?thesis
    unfolding m repeat_call_add using untrapWrite_last[OF at ready] by simp
qed

text \<open>
  Claim C4. Let address \<open>a\<close> lie in block \<open>r\<close> of the bus, and let the block's read trap be
  free or already hold callback \<open>f\<close> (so that \<open>trapRead(a, f)\<close> succeeds). Then \<open>n \<ge> 1\<close>
  calls of \<open>trapRead(a, f)\<close> all return \<open>true\<close>; after them, any \<open>j < n\<close> calls of
  \<open>untrapRead(a, f)\<close> all return \<open>true\<close> and leave the trap installed (the count is not
  zero, the callback is \<open>f\<close>, and \<open>readData\<close> is the wrapper when the trap was free
  before), and \<open>n\<close> calls of \<open>untrapRead(a, f)\<close> all return \<open>true\<close> and give back the very
  bus state from before the first \<open>trapRead\<close>: \<open>readData\<close> is the function installed
  before, and every later read behaves as if the trap had never been installed. The same
  holds for \<open>trapWrite\<close> and \<open>untrapWrite\<close>.
\<close>

theorem trap_reference_counting:
  fixes bus :: "'f bus"
  assumes at: "blocks_at bus (js_shr a (blockShift bus)) = Some r" and n: "0 < n"
  shows "(read_trap_ready (heap bus r) f \<longrightarrow>
           (\<exists>busn. repeat_call n (trapRead a f) bus = Some busn \<and>
              (\<forall>j<n. \<exists>busj. repeat_call j (untrapRead a f) busn = Some busj \<and>
                    nReadTraps (heap busj r) \<noteq> 0 \<and> readTrap (heap busj r) = Some f \<and>
                    (nReadTraps (heap bus r) = 0 \<longrightarrow> readData (heap busj r) = TrapWrapper)) \<and>
              repeat_call n (untrapRead a f) busn = Some bus)) \<and>
         (write_trap_ready (heap bus r) f \<longrightarrow>
           (\<exists>busn. repeat_call n (trapWrite a f) bus = Some busn \<and>
              (\<forall>j<n. \<exists>busj. repeat_call j (untrapWrite a f) busn = Some busj \<and>
                    nWriteTraps (heap busj r) \<noteq> 0 \<and> writeTrap (heap busj r) = Some f \<and>
                    (nWriteTraps (heap bus r) = 0 \<longrightarrow> writeData (heap busj r) = TrapWrapper)) \<and>
              repeat_call n (untrapWrite a f) busn = Some bus))"
proof (intro conjI impI)
  assume ready: "read_trap_ready (heap bus r) f"
  let ?busn = "set_block bus r (read_trapped (heap bus r) f n)"
  have 1: "repeat_call n (trapRead a f) bus = Some ?busn"
    by (rule trapRead_repeat[OF at ready n])
  have 2: "\<exists>busj. repeat_call j (untrapRead a f) ?busn = Some busj \<and>
                    nReadTraps (heap busj r) \<noteq> 0 \<and> readTrap (heap busj r) = Some f \<and>
                    (nReadTraps (heap bus r) = 0 \<longrightarrow> readData (heap busj r) = TrapWrapper)" if "j < n" for j
    using untrapRead_partial[OF at ready n that] that ready
    by (auto simp: set_block_def read_trapped_def read_trap_ready_def)
  have 3: "repeat_call n (untrapRead a f) ?busn = Some bus"
    by (rule untrapRead_all[OF at ready n])
  show "\<exists>busn. repeat_call n (trapRead a f) bus = Some busn \<and>
              (\<forall>j<n. \<exists>busj. repeat_call j (untrapRead a f) busn = Some busj \<and>
                    nReadTraps (heap busj r) \<noteq> 0 \<and> readTrap (heap busj r) = Some f \<and>
                    (nReadTraps (heap bus r) = 0 \<longrightarrow> readData (heap busj r) = TrapWrapper)) \<and>
              repeat_call n (untrapRead a f) busn = Some bus"
    using 1 2 3 by blast
next
  assume ready: "write_trap_ready (heap bus r) f"
  let ?busn = "set_block bus r (write_trapped (heap bus r) f n)"
  have 1: "repeat_call n (trapWrite a f) bus = Some ?busn"
    by (rule trapWrite_repeat[OF at ready n])
  have 2: "\<exists>busj. repeat_call j (untrapWrite a f) ?busn = Some busj \<and>
                    nWriteTraps (heap busj r) \<noteq> 0 \<and> writeTrap (heap busj r) = Some f \<and>
                    (nWriteTraps (heap bus r) = 0 \<longrightarrow> writeData (heap busj r) = TrapWrapper)" if "j < n" for j
    using untrapWrite_partial[OF at ready n that] that ready
    by (auto simp: set_block_def write_trapped_def write_trap_ready_def)
  have 3: "repeat_call n (untrapWrite a f) ?busn = Some bus"
    by (rule untrapWrite_all[OF at ready n])
  show "\<exists>busn. repeat_call n (trapWrite a f) bus = Some busn \<and>
              (\<forall>j<n. \<exists>busj. repeat_call j (untrapWrite a f) busn = Some busj \<and>
                    nWriteTraps (heap busj r) \<noteq> 0 \<and> writeTrap (heap busj r) = Some f \<and>
                    (nWriteTraps (heap bus r) = 0 \<longrightarrow> writeData (heap busj r) = TrapWrapper)) \<and>
              repeat_call n (untrapWrite a f) busn = Some bus"
    using 1 2 3 by blast
qed

lemma example_at: "blocks_at example_bus (js_shr 1104 (blockShift example_bus)) = Some 1"
  by (simp add: example_bus_eq blocks_at_def js_shr_def ToUint32_def)

lemma example_ready: "read_trap_ready (heap example_bus 1) ()" "write_trap_ready (heap example_bus 1) ()"
  by (simp_all add: example_bus_eq read_trap_ready_def write_trap_ready_def new_Memory_def)

theorem trap_reference_counting_witness:
  "(\<exists>busn. repeat_call 2 (trapRead 1104 ()) example_bus = Some busn \<and>
      (\<exists>bus1. repeat_call 1 (untrapRead 1104 ()) busn = Some bus1 \<and> readData (heap bus1 1) = TrapWrapper) \<and>
      repeat_call 2 (untrapRead 1104 ()) busn = Some example_bus) \<and>
   (\<exists>busn. repeat_call 2 (trapWrite 1104 ()) example_bus = Some busn \<and>
      (\<exists>bus1. repeat_call 1 (untrapWrite 1104 ()) busn = Some bus1 \<and> writeData (heap bus1 1) = TrapWrapper) \<and>
      repeat_call 2 (untrapWrite 1104 ()) busn = Some example_bus)"
proof -
  have z: "nReadTraps (heap example_bus 1) = 0" "nWriteTraps (heap example_bus 1) = 0"
    by (simp_all add: example_bus_eq new_Memory_def)
  have "(1::nat) < 2" by simp
  with trap_reference_counting[OF example_at, of 2 "()"] example_ready z show ?thesis
    by (metis zero_less_numeral)
qed

subsection \<open>Order of access and callback under a trap\<close>

text \<open>
  Claim C5. Let address \<open>a\<close> lie in block \<open>r\<close>, whose accessor is the block's own and
  which has no trap yet. After \<open>trapRead(a, f)\<close>, a read of the block at offset \<open>off\<close>
  obtains the value \<open>v\<close> that the read without the trap returns (through the previously
  installed function), then runs the callback \<open>f\<close> with \<open>(block.addr + off, v)\<close> on
  the state as it is after that read, and returns \<open>v\<close> unchanged (or the callback's
  exception). After \<open>trapWrite(a, f)\<close>, a write of \<open>v\<close> first runs the callback \<open>f\<close>
  with \<open>(block.addr + off, v)\<close> on the state before the store, in which the block still
  holds its old values, and only then delegates the store to the previously installed
  write function, on the state the callback left.
\<close>

theorem trap_callback_order:
  fixes bus :: "'f bus" and cb :: "('f, 'w) callbacks"
  assumes at: "blocks_at bus (js_shr a (blockShift bus)) = Some r"
  shows "(nReadTraps (heap bus r) = 0 \<and> readData (heap bus r) = Native \<longrightarrow>
           (\<exists>bus'. trapRead a f bus = Inr (True, bus') \<and>
              (\<forall>off w. block_readData cb r off (bus, w) = Inr (memory_readNative (heap bus r) off, (bus, w)) \<and>
                 block_readData cb r off (bus', w) =
                   (case cb f (block_addr_plus (heap bus r) off) (memory_readNative (heap bus r) off) (bus', w) of
                      Inl e \<Rightarrow> Inl e
                    | Inr s' \<Rightarrow> Inr (memory_readNative (heap bus r) off, s'))))) \<and>
         (nWriteTraps (heap bus r) = 0 \<and> writeData (heap bus r) = Native \<longrightarrow>
           (\<exists>bus'. trapWrite a f bus = Inr (True, bus') \<and> mvalues (heap bus' r) = mvalues (heap bus r) \<and>
              (\<forall>off v w. block_writeData cb r off v (bus', w) =
                   (case cb f (block_addr_plus (heap bus r) off) (Some v) (bus', w) of
                      Inl e \<Rightarrow> Inl e
                    | Inr s' \<Rightarrow>
                        (case writePrev (heap (fst s') r) of
                           None \<Rightarrow> Inl TypeError
                         | Some TrapWrapper \<Rightarrow> Inl RangeError
                         | Some Native \<Rightarrow> Inr (block_writeNative r off v s'))))))"
  using at
  by (auto simp: trapRead_def trapWrite_def Let_def block_readData_def block_writeData_def
        block_addr_plus_def memory_readNative_def split: sum.splits option.splits accessor.splits)

lemma example_at': "blocks_at example_bus (js_shr 1104 (blockShift example_bus)) = Some (Suc 0)"
  by (simp add: example_bus_eq blocks_at_def js_shr_def ToUint32_def)

theorem trap_callback_order_witness:
  "(\<exists>bus'. trapRead 1104 () example_bus = Inr (True, bus') \<and>
      Bus_readData log_callback 1104 (bus', []) = Inr (Some 0, (bus', [(Some 1104, Some 0, replicate 1024 0)]))) \<and>
   (\<exists>bus'. trapWrite 1104 () example_bus = Inr (True, bus') \<and>
      (\<exists>bus''. Bus_writeData log_callback 1104 204 (bus', []) =
           Inr (bus'', [(Some 1104, Some 204, replicate 1024 0)]) \<and>
         mvalues (heap bus'' (Suc 0)) = (replicate 1024 0)[80 := 204]))"
proof -
  have f: "nReadTraps (heap example_bus (Suc 0)) = 0 \<and> readData (heap example_bus (Suc 0)) = Native"
          "nWriteTraps (heap example_bus (Suc 0)) = 0 \<and> writeData (heap example_bus (Suc 0)) = Native"
    by (simp_all add: example_bus_eq new_Memory_def)
  note t = trap_callback_order[OF example_at', of "()" log_callback]
  from t f(1) obtain busr where r: "trapRead 1104 () example_bus = Inr (True, busr)"
    "\<And>off w. block_readData log_callback (Suc 0) off (busr, w) =
        (case log_callback () (block_addr_plus (heap example_bus (Suc 0)) off)
                (memory_readNative (heap example_bus (Suc 0)) off) (busr, w) of
           Inl e \<Rightarrow> Inl e
         | Inr s' \<Rightarrow> Inr (memory_readNative (heap example_bus (Suc 0)) off, s'))"
    by blast
  from t f(2) obtain busw where w: "trapWrite 1104 () example_bus = Inr (True, busw)"
    "mvalues (heap busw (Suc 0)) = mvalues (heap example_bus (Suc 0))"
    "\<And>off v w. block_writeData log_callback (Suc 0) off v (busw, w) =
        (case log_callback () (block_addr_plus (heap example_bus (Suc 0)) off) (Some v) (busw, w) of
           Inl e \<Rightarrow> Inl e
         | Inr s' \<Rightarrow>
             (case writePrev (heap (fst s') (Suc 0)) of
                None \<Rightarrow> Inl TypeError
              | Some TrapWrapper \<Rightarrow> Inl RangeError
              | Some Native \<Rightarrow> Inr (block_writeNative (Suc 0) off v s')))"
    by blast
  have geo: "addrLimit example_bus = 2047" "blockLimit example_bus = 1023" "blockShift example_bus = 10"
    "blocks example_bus = [Some 0, Some (Suc 0)]"
    "heap example_bus (Suc 0) = new_Memory (Some TYPE_RAM) (Some 1024) 1024 None"
    by (simp_all add: example_bus_eq)
  have at10: "blocks_at example_bus (js_shr 1104 10) = Some (Suc 0)"
    using example_at' by (simp add: geo)
  have rb: "addrLimit busr = 2047" "blockLimit busr = 1023" "blockShift busr = 10"
    "blocks busr = [Some 0, Some (Suc 0)]" "mvalues (heap busr (Suc 0)) = replicate 1024 0"
    using r(1) by (auto simp: trapRead_def at10 Let_def geo new_Memory_def)
  have wb: "addrLimit busw = 2047" "blockLimit busw = 1023" "blockShift busw = 10"
    "blocks busw = [Some 0, Some (Suc 0)]"
    "mvalues (heap busw (Suc 0)) = replicate 1024 0" "writePrev (heap busw (Suc 0)) = Some Native"
    "mtype (heap busw (Suc 0)) = TYPE_RAM"
    using w(1) by (auto simp: trapWrite_def at10 Let_def geo new_Memory_def)
  have idx: "js_shr (js_and 1104 2047) 10 = 1" "js_and 1104 1023 = 80"
    by (simp_all add: js_shr_def js_and_def ToInt32_def ToUint32_def)
  have rd: "Bus_readData log_callback 1104 (busr, []) = Inr (Some 0, (busr, [(Some 1104, Some 0, replicate 1024 0)]))"
    by (simp add: Bus_readData_def rb idx blocks_at_def r(2) geo log_callback_def block_addr_plus_def
          memory_readNative_def new_Memory_def)
  have wr: "Bus_writeData log_callback 1104 204 (busw, []) =
      Inr (block_writeNative (Suc 0) 80 204 (busw, [(Some 1104, Some 204, replicate 1024 0)]))"
    by (simp add: Bus_writeData_def wb idx blocks_at_def w(3) geo log_callback_def block_addr_plus_def
          new_Memory_def)
  have wv: "mvalues (heap (fst (block_writeNative (Suc 0) 80 204 (busw, [(Some 1104, Some 204, replicate 1024 0)]))) (Suc 0))
      = (replicate 1024 0)[80 := 204]"
    by (simp add: block_writeNative_def memory_writeNative_def wb)
  have sn: "snd (block_writeNative (Suc 0) 80 204 (busw, x)) = x" for x :: "(int option \<times> int option \<times> int list) list"
    by (simp add: block_writeNative_def)
  show ?thesis
    using r(1) rd w(1) wr wv sn
    by (metis prod.collapse)
qed

subsection \<open>Addresses wrap modulo the address space\<close>

lemma ToUint32_js_and_limit:
  assumes "w \<le> 32"
  shows "ToUint32 (js_and a (ToInt32 (2 ^ w - 1))) = take_bit w a"
proof -
  have "ToUint32 (js_and a (ToInt32 (2 ^ w - 1))) = take_bit 32 (a AND mask w)"
    unfolding ToUint32_def js_and_def ToInt32_def
    by (simp add: take_bit_signed_take_bit mask_eq_exp_minus_1)
  also have "\<dots> = take_bit 32 (take_bit w a)" by (simp add: take_bit_eq_mask)
  also have "\<dots> = take_bit w a" using assms by (simp add: min_def)
  finally show ?thesis .
qed

lemma js_shr_nat:
  assumes "0 \<le> n" "n < 32"
  shows "js_shr x n = drop_bit (nat n) (ToUint32 x)"
proof -
  have "ToUint32 n = n" using assms by (simp add: ToUint32_def take_bit_int_eq_self)
  then show ?thesis using assms by (simp add: js_shr_def)
qed

lemma js_and_blockLimit:
  assumes "0 \<le> n" "n < 32"
  shows "js_and a (js_shl 1 n - 1) = take_bit (nat n) a"
proof -
  let ?k = "nat n"
  have k: "?k \<le> 31" using assms by simp
  have n: "ToUint32 n = n" "n mod 32 = n" using assms by (simp_all add: ToUint32_def take_bit_int_eq_self)
  have L: "js_shl 1 n - 1 = signed_take_bit 31 (2 ^ ?k) - 1"
    by (simp add: js_shl_def ToInt32_def n push_bit_eq_mult)
  have "take_bit 32 (signed_take_bit 31 ((2::int) ^ ?k) - 1) = take_bit 32 (take_bit 32 (signed_take_bit 31 ((2::int) ^ ?k)) - take_bit 32 1)"
    by (simp only: take_bit_diff)
  also have "\<dots> = take_bit 32 (take_bit 32 ((2::int) ^ ?k) - take_bit 32 1)"
    by (simp add: take_bit_signed_take_bit)
  also have "\<dots> = take_bit 32 ((2::int) ^ ?k - 1)"
    by (simp only: take_bit_diff)
  also have "\<dots> = take_bit 32 (mask ?k :: int)" by (simp add: mask_eq_exp_minus_1)
  also have "\<dots> = mask ?k" using k by (simp add: take_bit_eq_mask flip: take_bit_eq_mask)
  finally have tL: "take_bit 32 (signed_take_bit 31 ((2::int) ^ ?k) - 1) = mask ?k" .
  let ?Y = "take_bit ?k a"
  have "take_bit 32 (ToInt32 a AND ToInt32 (js_shl 1 n - 1)) = take_bit 32 a AND mask ?k"
    by (simp add: ToInt32_def L take_bit_signed_take_bit tL)
  also have "\<dots> = take_bit 32 ?Y" using k by (simp add: take_bit_eq_mask min_def flip: take_bit_eq_mask) 
  finally have "signed_take_bit 31 (ToInt32 a AND ToInt32 (js_shl 1 n - 1)) = signed_take_bit 31 ?Y"
    by (simp add: signed_take_bit_eq_iff_take_bit_eq)
  moreover have "signed_take_bit 31 ?Y = ?Y"
  proof (rule signed_take_bit_int_eq_self)
    show "- (2 ^ 31) \<le> ?Y" by (rule order_trans[of _ 0]) simp_all
    have "?Y < 2 ^ ?k" by simp
    also have "(2::int) ^ ?k \<le> 2 ^ 31" using k by (intro power_increasing) auto
    finally show "?Y < 2 ^ 31" .
  qed
  ultimately show ?thesis by (simp add: js_and_def ToInt32_def)
qed


lemma bus_index_offset:
  assumes wf: "bus_wf bus"
  shows "js_shr (js_and a (addrLimit bus)) (blockShift bus) =
           drop_bit (nat (blockShift bus)) (take_bit (addrWidth bus) a)"
    and "js_and a (blockLimit bus) = take_bit (nat (blockShift bus)) a"
  using wf
  by (simp_all add: bus_wf_def js_shr_nat ToUint32_js_and_limit js_and_blockLimit)

lemma bus_index_in_table:
  assumes wf: "bus_wf bus"
  shows "\<exists>r. blocks_at bus (js_shr (js_and a (addrLimit bus)) (blockShift bus)) = Some r"
proof -
  let ?k = "nat (blockShift bus)" and ?w = "addrWidth bus"
  let ?i = "drop_bit ?k (take_bit ?w a)"
  have kw: "?k \<le> ?w" and len: "length (blocks bus) = 2 ^ (?w - ?k)"
    and pop: "\<forall>i<length (blocks bus). blocks bus ! i \<noteq> None"
    using wf by (auto simp: bus_wf_def)
  have i0: "0 \<le> ?i" by simp
  have "?i = take_bit (?w - ?k) (drop_bit ?k a)" by (simp add: drop_bit_take_bit)
  then have "?i < 2 ^ (?w - ?k)" by simp
  then have "nat ?i < length (blocks bus)" using i0 len
    by (metis nat_less_iff of_nat_numeral of_nat_power)
  then show ?thesis using pop i0
    by (auto simp: bus_index_offset(1)[OF wf] blocks_at_def)
qed

text \<open>
  Claim C9. On a bus of the shape the constructor builds, for every integer address
  \<open>a\<close> (in particular every \<open>a\<close> from 0 up to \<open>2 ^ 32\<close>), \<open>readData(a)\<close> is the same
  computation as \<open>readData(a mod 2 ^ addrWidth)\<close>, with the same result and the same
  effects, \<open>writeData(a, v)\<close> is the same computation as \<open>writeData(a mod 2 ^ addrWidth,
  v)\<close>, and the index computed from \<open>a\<close> lies inside the block table, at an entry that
  holds a block.
\<close>

theorem bus_address_wrap:
  fixes s :: "('f, 'w) machine"
  assumes wf: "bus_wf (fst s)"
  shows "Bus_readData cb a s = Bus_readData cb (a mod 2 ^ addrWidth (fst s)) s \<and>
         Bus_writeData cb a v s = Bus_writeData cb (a mod 2 ^ addrWidth (fst s)) v s \<and>
         (\<exists>r. blocks_at (fst s) (js_shr (js_and a (addrLimit (fst s))) (blockShift (fst s))) = Some r)"
proof -
  let ?k = "nat (blockShift (fst s))" and ?w = "addrWidth (fst s)"
  have kw: "?k \<le> ?w" using wf by (simp add: bus_wf_def)
  have m: "a mod 2 ^ ?w = take_bit ?w a" by (simp add: take_bit_eq_mod)
  have i: "js_shr (js_and (take_bit ?w a) (addrLimit (fst s))) (blockShift (fst s)) =
           js_shr (js_and a (addrLimit (fst s))) (blockShift (fst s))"
    by (simp add: bus_index_offset(1)[OF wf])
  have "take_bit ?k (take_bit ?w a) = take_bit ?k a" using kw by (simp add: min_def)
  then have o: "js_and (take_bit ?w a) (blockLimit (fst s)) = js_and a (blockLimit (fst s))"
    by (simp add: bus_index_offset(2)[OF wf])
  show ?thesis
    using bus_index_in_table[OF wf, of a]
    by (auto simp: Bus_readData_def Bus_writeData_def m i o split: option.splits)
qed

lemma example_bus_wf: "bus_wf example_bus"
  by (auto simp: bus_wf_def example_bus_eq ToInt32_def js_shl_def ToUint32_def less_Suc_eq numeral_2_eq_2)

theorem bus_address_wrap_witness:
  "Bus_readData log_callback 3152 (example_bus, []) = Bus_readData log_callback 1104 (example_bus, []) \<and>
   Bus_writeData log_callback 3152 7 (example_bus, []) = Bus_writeData log_callback 1104 7 (example_bus, []) \<and>
   (\<exists>r. blocks_at example_bus (js_shr (js_and 3152 (addrLimit example_bus)) (blockShift example_bus)) = Some r)"
proof -
  have w: "bus_wf (fst (example_bus, [] :: (int option \<times> int option \<times> int list) list))"
    using example_bus_wf by simp
  have "(3152::int) mod 2 ^ addrWidth example_bus = 1104" by (simp add: example_bus_eq)
  then show ?thesis using bus_address_wrap[OF w, of log_callback 3152 7] by simp
qed

section \<open>Properties of the debugger\<close>

subsection \<open>Unsigned truncation\<close>

lemma js_rem_nonneg: "0 \<le> x \<Longrightarrow> 0 < L \<Longrightarrow> js_rem x L = x mod L"
  by (cases "x = 0") (simp_all add: js_rem_def)

lemma js_rem_neg: "x < 0 \<Longrightarrow> 0 < L \<Longrightarrow> js_rem x L = - ((- x) mod L)"
  by (simp add: js_rem_def)

lemma js_rem_mod:
  assumes "0 < L"
  shows "(let r = js_rem x L in if r < 0 then r + L else r) = x mod L"
proof (cases "x < 0")
  case False
  then have "js_rem x L = x mod L" using assms by (simp add: js_rem_nonneg)
  moreover have "0 \<le> x mod L" using assms by simp
  ultimately show ?thesis by (simp add: Let_def)
next
  case True
  then have "js_rem x L = - ((- x) mod L)" using assms by (simp add: js_rem_neg)
  moreover have "(- x) mod L = (if x mod L = 0 then 0 else L - x mod L)"
    using assms by (simp add: zmod_zminus1_eq_if)
  moreover have "0 \<le> x mod L" "x mod L < L" using assms by simp_all
  ultimately show ?thesis by (auto simp: Let_def)
qed

lemma js_rem_twice:
  assumes "0 < L"
  shows "js_rem (js_rem x L + L) L = x mod L"
proof (cases "x < 0")
  case False
  then have r: "js_rem x L = x mod L" using assms by (simp add: js_rem_nonneg)
  have "0 \<le> x mod L + L" using assms by (simp add: add_nonneg_nonneg)
  then have "js_rem (x mod L + L) L = (x mod L + L) mod L" using assms by (rule js_rem_nonneg)
  then show ?thesis using r by simp
next
  case True
  then have r: "js_rem x L = - ((- x) mod L)" using assms by (simp add: js_rem_neg)
  have "(- x) mod L < L" using assms by simp
  then have "0 \<le> - ((- x) mod L) + L" by simp
  then have "js_rem (- ((- x) mod L) + L) L = (- ((- x) mod L) + L) mod L"
    using assms by (rule js_rem_nonneg)
  also have "\<dots> = (- ((- x) mod L)) mod L" by simp
  also have "\<dots> = (- (- x)) mod L" by (simp only: mod_minus_eq)
  finally show ?thesis using r by simp
qed

text \<open>
  Claim C8. For every integer \<open>x\<close> and bit count \<open>n \<ge> 1\<close> within the range where numbers
  are exact integers (\<open>n \<le> 53\<close>, \<open>|x| \<le> 2 ^ 53\<close>), \<open>truncate(x, n, true)\<close> equals
  \<open>((x mod 2 ^ n) + 2 ^ n) mod 2 ^ n\<close>, whether \<open>mod\<close> is read as the mathematical
  modulus or as the remainder operator of the source language (\<open>js_rem\<close>); it is the
  value in \<open>[0, 2 ^ n)\<close> that is congruent to \<open>x\<close> modulo \<open>2 ^ n\<close>.
\<close>

theorem truncate_unsigned:
  assumes "1 \<le> n" "n \<le> 53" "\<bar>x\<bar> \<le> 2 ^ 53"
  shows "dbg_truncate d x n True = ((x mod 2 ^ n) + 2 ^ n) mod 2 ^ n \<and>
         dbg_truncate d x n True = js_rem (js_rem x (2 ^ n) + 2 ^ n) (2 ^ n) \<and>
         0 \<le> dbg_truncate d x n True \<and> dbg_truncate d x n True < 2 ^ n \<and>
         (dbg_truncate d x n True - x) mod 2 ^ n = 0"
proof -
  have r: "dbg_truncate d x n True = x mod 2 ^ n"
  proof -
    consider "n = 32" | "n < 32" | "32 < n" by linarith
    then show ?thesis
    proof cases
      case 1
      then show ?thesis by (simp add: dbg_truncate_def ToUint32_def take_bit_eq_mod)
    next
      case 2
      then have "js_and x (js_shl 1 (int n) - 1) = take_bit (nat (int n)) x"
        by (intro js_and_blockLimit) auto
      then show ?thesis using 2 assms(1) by (simp add: dbg_truncate_def take_bit_eq_mod)
    next
      case 3
      have L: "(0::int) < 2 ^ n" by simp
      show ?thesis
      proof (cases "x < 0 \<or> x \<ge> 2 ^ n")
        case True
        then show ?thesis using 3 assms(1) js_rem_mod[OF L, of x]
          by (simp add: dbg_truncate_def Let_def)
      next
        case False
        then show ?thesis using 3 assms(1) by (simp add: dbg_truncate_def Let_def)
      qed
    qed
  qed
  have L: "(0::int) < 2 ^ n" by simp
  have j: "js_rem (js_rem x (2 ^ n) + 2 ^ n) (2 ^ n) = x mod 2 ^ n"
    by (rule js_rem_twice[OF L])
  show ?thesis unfolding r using j by (simp add: mod_diff_left_eq)
qed

theorem truncate_unsigned_witness:
  "dbg_truncate 16 (- 1) 8 True = 255 \<and> dbg_truncate 16 (- 1) 8 True = ((- 1 mod 2 ^ 8) + 2 ^ 8) mod 2 ^ 8 \<and>
   dbg_truncate 16 (2 ^ 40 + 5) 40 True = 5 \<and> dbg_truncate 16 (- 5) 32 True = 4294967291"
proof -
  have a: "(1::nat) \<le> 8" "(8::nat) \<le> 53" "\<bar>- 1 :: int\<bar> \<le> 2 ^ 53" by simp_all
  have b: "(1::nat) \<le> 40" "(40::nat) \<le> 53" "\<bar>2 ^ 40 + 5 :: int\<bar> \<le> 2 ^ 53" by simp_all
  have c: "(1::nat) \<le> 32" "(32::nat) \<le> 53" "\<bar>- 5 :: int\<bar> \<le> 2 ^ 53" by simp_all
  show ?thesis
    using truncate_unsigned[OF a, of 16] truncate_unsigned[OF b, of 16] truncate_unsigned[OF c, of 16]
    by simp
qed

subsection \<open>Disabled breakpoints\<close>


















section \<open>Facts about the segment registers\<close>

lemma js_and_eq: "js_and a b = signed_take_bit 31 (a AND b)"
  unfolding js_and_def ToInt32_def
  by (simp add: signed_take_bit_eq_iff_take_bit_eq take_bit_signed_take_bit)


lemma js_and_mask:
  assumes "0 \<le> m" "m < 2 ^ 31"
  shows "js_and a m = a AND m"
proof -
  have "0 \<le> a AND m" using assms by simp
  moreover have "a AND m \<le> m" using assms by (simp add: AND_upper2)
  ultimately have "- (2 ^ 31) \<le> a AND m" "a AND m < 2 ^ 31" using assms by linarith+
  then show ?thesis by (simp add: js_and_eq signed_take_bit_int_eq_self)
qed

lemma js_and_ffff: "js_and s 0xffff = s mod 65536"
proof -
  have "js_and s 0xffff = s AND 0xffff" by (rule js_and_mask) simp_all
  also have "\<dots> = s AND mask 16" by (simp add: mask_eq_exp_minus_1)
  also have "\<dots> = s mod 65536" by (simp add: take_bit_eq_mask[symmetric] take_bit_eq_mod)
  finally show ?thesis .
qed

lemma js_shl_4: "0 \<le> x \<Longrightarrow> x < 65536 \<Longrightarrow> js_shl x 4 = 16 * x"
  by (simp add: js_shl_def ToUint32_def ToInt32_def signed_take_bit_int_eq_self push_bit_eq_mult)

lemma example_real_CS: "segs example_real SegCS = new_X86Seg ID_CODE"
  by (simp add: example_real_def X86Seg_def updateMode_def this_update_def new_X86Seg_def Let_def
        js_and_def ToInt32_def CR0_MSW_PE_def updateMode_access_def updateMode_load_def
        js_not_def SEL_RPL_def ADDR_INVALID_def)

lemma and_pow2: "(a::int) AND 2 ^ n = (if bit a n then 2 ^ n else 0)"
  by (rule bit_eqI) (auto simp: bit_and_iff bit_exp_iff)

lemma and_bits:
  "(a::int) AND 0x0100 = (if bit a 8 then 0x0100 else 0)"
  "(a::int) AND 0x0200 = (if bit a 9 then 0x0200 else 0)"
  "(a::int) AND 0x0400 = (if bit a 10 then 0x0400 else 0)"
  "(a::int) AND 0x0800 = (if bit a 11 then 0x0800 else 0)"
  "(a::int) AND 0x1000 = (if bit a 12 then 0x1000 else 0)"
  using and_pow2[of a 8] and_pow2[of a 9] and_pow2[of a 10] and_pow2[of a 11] and_pow2[of a 12]
  by simp_all

lemma and_0C00: "(a::int) AND 0x0C00 = (a AND 0x0800) OR (a AND 0x0400)"
proof -
  have "(0x0C00::int) = 0x0800 OR 0x0400" by simp
  then show ?thesis by (simp only: bit.conj_disj_distrib)
qed

lemma and_0A00: "(a::int) AND 0x0A00 = (a AND 0x0800) OR (a AND 0x0200)"
proof -
  have "(0x0A00::int) = 0x0800 OR 0x0200" by simp
  then show ?thesis by (simp only: bit.conj_disj_distrib)
qed

lemma and_1A00: "(a::int) AND 0x1A00 = (a AND 0x1000) OR (a AND 0x0800) OR (a AND 0x0200)"
proof -
  have "(0x1A00::int) = 0x1000 OR 0x0800 OR 0x0200" by simp
  then show ?thesis by (simp only: bit.conj_disj_distrib)
qed

lemma acc_tests:
  "js_and a 0x1000 = (if bit a 12 then 0x1000 else 0)"
  "js_and a 0x0800 = (if bit a 11 then 0x0800 else 0)"
  "js_and a 0x0400 = (if bit a 10 then 0x0400 else 0)"
  "js_and a 0x0200 = (if bit a 9 then 0x0200 else 0)"
  "js_and a 0x0100 = (if bit a 8 then 0x0100 else 0)"
  "js_and a (js_or 0x0800 0x0400) = (if bit a 11 then 0x0800 else 0) OR (if bit a 10 then 0x0400 else 0)"
  "js_and a (js_or 0x0800 0x0200) = (if bit a 11 then 0x0800 else 0) OR (if bit a 9 then 0x0200 else 0)"
  "js_and a 0x1A00 = (if bit a 12 then 0x1000 else 0) OR (if bit a 11 then 0x0800 else 0) OR (if bit a 9 then 0x0200 else 0)"
proof -
  have o: "js_or 0x0800 0x0400 = 0x0C00" "js_or 0x0800 0x0200 = 0x0A00"
    by (simp_all add: js_or_def ToInt32_def)
  show "js_and a 0x1000 = (if bit a 12 then 0x1000 else 0)"
    by (simp add: js_and_mask and_bits)
  show "js_and a 0x0800 = (if bit a 11 then 0x0800 else 0)"
    by (simp add: js_and_mask and_bits)
  show "js_and a 0x0400 = (if bit a 10 then 0x0400 else 0)"
    by (simp add: js_and_mask and_bits)
  show "js_and a 0x0200 = (if bit a 9 then 0x0200 else 0)"
    by (simp add: js_and_mask and_bits)
  show "js_and a 0x0100 = (if bit a 8 then 0x0100 else 0)"
    by (simp add: js_and_mask and_bits)
  show "js_and a (js_or 0x0800 0x0400) = (if bit a 11 then 0x0800 else 0) OR (if bit a 10 then 0x0400 else 0)"
    unfolding o by (simp add: js_and_mask and_0C00 and_bits)
  show "js_and a (js_or 0x0800 0x0200) = (if bit a 11 then 0x0800 else 0) OR (if bit a 9 then 0x0200 else 0)"
    unfolding o by (simp add: js_and_mask and_0A00 and_bits)
  show "js_and a 0x1A00 = (if bit a 12 then 0x1000 else 0) OR (if bit a 11 then 0x0800 else 0) OR (if bit a 9 then 0x0200 else 0)"
    by (simp add: js_and_mask and_1A00 and_bits)
qed

lemmas acc_consts = ACC_TYPE_SEG_def ACC_TYPE_CODE_def ACC_TYPE_EXPDOWN_def ACC_TYPE_WRITABLE_def
  ACC_TYPE_READABLE_def ACC_TYPE_CONFORMING_def ACC_TYPE_ACCESSED_def ACC_TYPE_CODE_READABLE_def
  ACC_TYPE_CODE_EXECONLY_def

lemma install_fields:
  "sel (segs (loadDesc8_install who s d a c) who) = s"
  "base (segs (loadDesc8_install who s d a c) who) = d_base d"
  "limit (segs (loadDesc8_install who s d a c) who) = d_limit d"
  "offMax (segs (loadDesc8_install who s d a c) who) = ToUint32 (d_limit d) + 1"
  "acc (segs (loadDesc8_install who s d a c) who) = d_acc d"
  by (simp_all add: loadDesc8_install_def updateMode_def updateMode_access_def updateMode_load_def
        this_update_def setByte_def Let_def)

lemma install_load_slot:
  "load (segs (loadDesc8_install who s d a c) who) = loadProt_slot \<longleftrightarrow> js_and (regCR0 c) CR0_MSW_PE \<noteq> 0"
  by (simp add: loadDesc8_install_def updateMode_def updateMode_access_def updateMode_load_def
        this_update_def setByte_def Let_def)

lemma install_expand_down:
  assumes pe: "js_and (regCR0 c) CR0_MSW_PE \<noteq> 0"
    and nonnull: "js_and s (js_not SEL_RPL) \<noteq> 0"
    and bits: "js_and (d_acc d) ACC_TYPE_SEG \<noteq> 0" "js_and (d_acc d) ACC_TYPE_CODE = 0"
       "js_and (d_acc d) ACC_TYPE_EXPDOWN \<noteq> 0" "js_and (d_acc d) ACC_TYPE_WRITABLE \<noteq> 0"
  shows "checkWrite (segs (loadDesc8_install who s d a c) who) = checkWriteProtDown_slot"
  using assms
  by (simp add: loadDesc8_install_def updateMode_def updateMode_access_def updateMode_load_def
        this_update_def setByte_def Let_def acc_tests acc_consts
        split: if_splits)


lemma seg_load_installs:
  assumes role: "seg_id (segs c who) \<noteq> ID_CODE"
      and ld: "seg_load n X who s fl c = Some (r, c')"
      and ok: "r \<noteq> ADDR_INVALID"
      and prot: "load (segs c' who) = loadProt_slot"
  shows "\<exists>c0 a. js_and (regCR0 c0) CR0_MSW_PE \<noteq> 0 \<and>
           c' = loadDesc8_install who (js_and s 0xffff) (loadDesc8_fetch c0 a) a c0"
proof (cases "load (segs c who)")
  case loadReal_slot
  then have "load (segs c' who) = loadReal_slot" using ld
    by (auto simp: seg_load_def seg_load_with_def loadReal_def this_update_def Let_def)
  then show ?thesis using prot by simp
next
  case loadProt_slot
  show ?thesis
  proof (cases n)
    case 0
    then show ?thesis using ld ok loadProt_slot
      by (auto simp: seg_load_def seg_load_with_def loadProt_with_def loadProt_table_def loadProt_addrDesc_def Let_def split: if_splits)
  next
    case (Suc m)
    define s' where "s' = js_and s 0xffff"
    define a where "a = ToInt32 ((if js_and s' SEL_LDT = 0 then addrGDT c else base (segs c SegLDT)) + js_and s' SEL_MASK)"
    define c0 where "c0 = (if \<not> fl then c\<lparr>nStepCycles := nStepCycles c - 15\<rparr> else c)"
    have r0: "seg_id (segs c0 who) \<noteq> ID_CODE" using role by (simp add: c0_def)
    have "loadDesc8 (Suc m) X who a s' fl c0 = Some (r, c')"
      using ld ok loadProt_slot Suc
      by (auto simp: seg_load_def seg_load_with_def loadProt_with_def loadProt_table_def loadProt_addrDesc_def Let_def s'_def a_def c0_def
            simp del: loadDesc8.simps split: if_splits)
    then have "c' = loadDesc8_install who s' (loadDesc8_fetch c0 a) a c0"
      using r0 ok by (auto simp: Let_def split: option.splits)
    moreover from this have "js_and (regCR0 c0) CR0_MSW_PE \<noteq> 0"
      using prot install_load_slot[of who s' "loadDesc8_fetch c0 a" a c0] by simp
    ultimately show ?thesis unfolding s'_def by blast
  qed
qed

lemma checkWrite_down:
  assumes "checkWrite (segs c who) = checkWriteProtDown_slot"
  shows "seg_checkWrite who off cb fSuppress c =
           (if ToUint32 off + cb > offMax (segs c who) then (ToInt32 (base (segs c who) + off), c)
            else (ADDR_INVALID, if \<not> fSuppress then fnFault GP_FAULT 0 False c else c))"
  using assms by (simp add: seg_checkWrite_def checkWriteProtDown_def checkWriteProtDisallowed_def)


lemmas js_eval = js_and_def js_or_def js_not_def js_sar_def js_shl_def ToInt32_def ToUint32_def

lemma example_real_eq:
  "example_real =
     \<lparr> I386 = False, model = 80286, regCR0 = 0, regEIP = 0, regPS = 2, regEAX = 0,
       regECX = 0, regEDX = 0, regEBX = 0, regEBP = 0, regESI = 0, regEDI = 0,
       nStepCycles = 0, addrGDT = 0x1000, addrGDTLimit = 0x1027, addrIDT = 0,
       addrIDTLimit = 0x3FF, mem = mem_of 0x1000 example_gdt, faults = [],
       segs = (\<lambda>who. new_X86Seg ID_NULL)
         (SegCS := new_X86Seg ID_CODE, SegDS := new_X86Seg ID_DATA, SegES := new_X86Seg ID_DATA,
          SegSS := new_X86Seg ID_STACK,
          SegTSS := (new_X86Seg ID_TSS)\<lparr>load := loadProt_slot, loadIDT := loadIDTProt_slot,
             checkRead := checkReadProtDisallowed_slot, checkWrite := checkWriteProtDisallowed_slot\<rparr>,
          SegLDT := (new_X86Seg ID_LDT)\<lparr>load := loadProt_slot, loadIDT := loadIDTProt_slot,
             checkRead := checkReadProtDisallowed_slot, checkWrite := checkWriteProtDisallowed_slot\<rparr>) \<rparr>"
  by (simp add: example_real_def X86Seg_def updateMode_def this_update_def new_X86Seg_def Let_def
        js_eval CR0_MSW_PE_def updateMode_access_def updateMode_load_def
        SEL_RPL_def ADDR_INVALID_def ACC_DPL_MASK_def ACC_DPL_SHIFT_def MODEL_80386_def)

lemma example_prot_fields:
  "I386 example_prot = False" "model example_prot = 80286" "regCR0 example_prot = 1"
  "addrGDT example_prot = 0x1000" "addrGDTLimit example_prot = 0x1027"
  "mem example_prot = mem_of 0x1000 example_gdt" "faults example_prot = []"
  "nStepCycles example_prot = 0"
  by (simp_all add: example_prot_def example_real_eq updateMode_def this_update_def Let_def)

lemma example_prot_segs:
  "segs example_prot SegCS = (new_X86Seg ID_CODE)\<lparr>load := loadProt_slot, loadIDT := loadIDTProt_slot,
     checkRead := checkReadProtDisallowed_slot, checkWrite := checkWriteProtDisallowed_slot\<rparr>"
  "segs example_prot SegSS = (new_X86Seg ID_STACK)\<lparr>load := loadProt_slot, loadIDT := loadIDTProt_slot,
     checkRead := checkReadProtDisallowed_slot, checkWrite := checkWriteProtDisallowed_slot\<rparr>"
  by (simp_all add: example_prot_def example_real_eq updateMode_def this_update_def Let_def
        updateMode_access_def new_X86Seg_def js_eval SEL_RPL_def)

lemma fetch_nStepCycles [simp]: "loadDesc8_fetch (c\<lparr>nStepCycles := k\<rparr>) a = loadDesc8_fetch c a"
  by (simp add: loadDesc8_fetch_def getShort_def getByte_def)

lemma example_fetch:
  "loadDesc8_fetch example_prot 0x1008 =
     \<lparr> d_limit = 0xFFFF, d_acc = 0x9A02, d_type = 0x1A00, d_base = 0x20000, d_ext = 0 \<rparr>"
  "loadDesc8_fetch example_prot 0x1010 =
     \<lparr> d_limit = 0x0FFF, d_acc = 0x9603, d_type = 0x1600, d_base = 0x30000, d_ext = 0 \<rparr>"
  "loadDesc8_fetch example_prot 0x1020 =
     \<lparr> d_limit = 0xFFFF, d_acc = 0xFA05, d_type = 0x1A00, d_base = 0x50000, d_ext = 0 \<rparr>"
  by (simp_all add: loadDesc8_fetch_def example_prot_fields getShort_def getByte_def mem_of_def
        example_gdt_def Let_def js_eval DESC_LIMIT_OFFSET_def DESC_ACC_OFFSET_def DESC_BASE_OFFSET_def
        DESC_EXT_OFFSET_def ACC_TYPE_MASK_def ACC_BASE1623_def)

lemma seg_load_data:
  assumes slot: "load (segs c who) = loadProt_slot"
      and role: "seg_id (segs c who) \<noteq> ID_CODE"
      and gdt: "js_and (js_and s 0xffff) SEL_LDT = 0"
      and a: "a = ToInt32 (addrGDT c + js_and (js_and s 0xffff) SEL_MASK)"
      and dt: "\<not> fl \<or> addrGDT c \<noteq> 0"
      and inside: "js_or (addrGDTLimit c - a) 0 \<noteq> 0"
      and d: "d = loadDesc8_fetch c a"
      and pass: "loadDesc8_reject (seg_id (segs c who)) (js_and s 0xffff) d fl c = None"
  shows "seg_load (Suc n) X who s fl c =
           Some (d_base d, loadDesc8_install who (js_and s 0xffff) d a
                             (if fl then c else c\<lparr>nStepCycles := nStepCycles c - 15\<rparr>))"
proof -
  define c0 where "c0 = (if fl then c else c\<lparr>nStepCycles := nStepCycles c - 15\<rparr>)"
  have f: "loadDesc8_fetch c0 a = d" unfolding d c0_def by simp
  have r: "seg_id (segs c0 who) = seg_id (segs c who)" by (simp add: c0_def)
  have "loadDesc8_reject (seg_id (segs c who)) (js_and s 0xffff) d fl c0 = None"
    using pass unfolding c0_def
    by (cases "seg_id (segs c who)") (auto simp: loadDesc8_reject_def Let_def split: if_splits)
  then have "loadDesc8 (Suc n) X who a (js_and s 0xffff) fl c0 =
               Some (d_base d, loadDesc8_install who (js_and s 0xffff) d a c0)"
    using role by (simp add: Let_def f r)
  moreover have "seg_load (Suc n) X who s fl c = loadDesc8 (Suc n) X who a (js_and s 0xffff) fl c0"
    using slot gdt dt inside unfolding a c0_def
    by (auto simp: seg_load_def seg_load_with_def loadProt_with_def loadProt_table_def loadProt_addrDesc_def Let_def simp del: loadDesc8.simps)
  ultimately show ?thesis unfolding c0_def by simp
qed


lemma example_stack_load:
  "seg_load 1 example_ops SegSS 0x10 False example_prot = Some (0x30000, example_stack)"
  "example_stack =
     loadDesc8_install SegSS 0x10
       \<lparr> d_limit = 0x0FFF, d_acc = 0x9603, d_type = 0x1600, d_base = 0x30000, d_ext = 0 \<rparr> 0x1010
       (example_prot\<lparr>nStepCycles := - 15\<rparr>)"
proof -
  have l: "seg_load (Suc 0) example_ops SegSS 0x10 False example_prot =
     Some (d_base \<lparr> d_limit = 0x0FFF, d_acc = 0x9603, d_type = 0x1600, d_base = 0x30000, d_ext = 0 \<rparr>,
       loadDesc8_install SegSS (js_and 0x10 0xffff)
       \<lparr> d_limit = 0x0FFF, d_acc = 0x9603, d_type = 0x1600, d_base = 0x30000, d_ext = 0 \<rparr> 0x1010
       (if False then example_prot else example_prot\<lparr>nStepCycles := nStepCycles example_prot - 15\<rparr>))"
    by (rule seg_load_data)
       (simp_all add: example_prot_fields example_prot_segs example_fetch new_X86Seg_def js_eval
          SEL_LDT_def SEL_MASK_def loadDesc8_reject_def Let_def ACC_PRESENT_def ACC_TYPE_SEG_def
          ACC_TYPE_CODE_def ACC_TYPE_WRITABLE_def)
  have v: "js_and 0x10 0xffff = 0x10" by (simp add: js_and_ffff)
  show "example_stack =
     loadDesc8_install SegSS 0x10
       \<lparr> d_limit = 0x0FFF, d_acc = 0x9603, d_type = 0x1600, d_base = 0x30000, d_ext = 0 \<rparr> 0x1010
       (example_prot\<lparr>nStepCycles := - 15\<rparr>)"
    unfolding example_stack_def One_nat_def l by (simp add: v example_prot_fields)
  then show "seg_load 1 example_ops SegSS 0x10 False example_prot = Some (0x30000, example_stack)"
    unfolding One_nat_def l by (simp add: v example_prot_fields)
qed

lemma example_stack_seg:
  "sel (segs example_stack SegSS) = 0x10" "base (segs example_stack SegSS) = 0x30000"
  "limit (segs example_stack SegSS) = 0x0FFF" "offMax (segs example_stack SegSS) = 0x1000"
  "acc (segs example_stack SegSS) = 0x9603" "load (segs example_stack SegSS) = loadProt_slot"
  "checkWrite (segs example_stack SegSS) = checkWriteProtDown_slot"
proof -
  show "checkWrite (segs example_stack SegSS) = checkWriteProtDown_slot"
    unfolding example_stack_load(2)
    by (rule install_expand_down)
       (simp_all add: example_prot_fields js_eval CR0_MSW_PE_def SEL_RPL_def acc_consts)
qed (simp_all add: example_stack_load(2) install_fields install_load_slot example_prot_fields
       js_eval CR0_MSW_PE_def)






lemma seg_load_code:
  assumes slot: "load (segs c who) = loadProt_slot"
      and role: "seg_id (segs c who) = ID_CODE"
      and gdt: "js_and (js_and s 0xffff) SEL_LDT = 0"
      and a: "a = ToInt32 (addrGDT c + js_and (js_and s 0xffff) SEL_MASK)"
      and dt: "\<not> fl \<or> addrGDT c \<noteq> 0"
      and inside: "js_or (addrGDTLimit c - a) 0 \<noteq> 0"
      and d: "d = loadDesc8_fetch c a"
  shows "seg_load (Suc n) X who s fl c =
           loadDesc8_code (loadDesc8 n X) X who a (js_and s 0xffff) fl d
             (if fl then c else c\<lparr>nStepCycles := nStepCycles c - 15\<rparr>)"
  using slot role gdt dt inside unfolding a d
  by (auto simp: seg_load_def seg_load_with_def loadProt_with_def loadProt_table_def
        loadProt_addrDesc_def Let_def)

lemma example_far_load:
  "seg_load 1 example_ops SegCS 0x0B False example_prot = Some (0x20000, example_far)"
  "example_far =
     loadDesc8_install SegCS 0x0B
       \<lparr> d_limit = 0xFFFF, d_acc = 0x9A02, d_type = 0x1A00, d_base = 0x20000, d_ext = 0 \<rparr> 0x1008
       (this_update SegCS (\<lambda>this. this\<lparr>fStackSwitch := True\<rparr>) (example_prot\<lparr>nStepCycles := - 15\<rparr>))"
proof -
  have l: "seg_load (Suc 0) example_ops SegCS 0x0B False example_prot =
     loadDesc8_code (loadDesc8 0 example_ops) example_ops SegCS 0x1008 (js_and 0x0B 0xffff) False
       \<lparr> d_limit = 0xFFFF, d_acc = 0x9A02, d_type = 0x1A00, d_base = 0x20000, d_ext = 0 \<rparr>
       (if False then example_prot else example_prot\<lparr>nStepCycles := nStepCycles example_prot - 15\<rparr>)"
    by (rule seg_load_code)
       (simp_all add: example_prot_fields example_prot_segs example_fetch new_X86Seg_def js_eval
          SEL_LDT_def SEL_MASK_def)
  have v: "js_and 0x0B 0xffff = 0x0B" by (simp add: js_and_ffff)
  have e: "loadDesc8_code ld8 example_ops SegCS 0x1008 0x0B False
       \<lparr> d_limit = 0xFFFF, d_acc = 0x9A02, d_type = 0x1A00, d_base = 0x20000, d_ext = 0 \<rparr>
       (example_prot\<lparr>nStepCycles := - 15\<rparr>) =
     Some (0x20000, loadDesc8_install SegCS 0x0B
       \<lparr> d_limit = 0xFFFF, d_acc = 0x9A02, d_type = 0x1A00, d_base = 0x20000, d_ext = 0 \<rparr> 0x1008
       (this_update SegCS (\<lambda>this. this\<lparr>fStackSwitch := True\<rparr>) (example_prot\<lparr>nStepCycles := - 15\<rparr>)))"
    for ld8
    by (simp add: loadDesc8_code_def loadDesc8_retf_def example_ops_def this_update_def Let_def
          example_prot_segs new_X86Seg_def js_eval SEL_MASK_def SEL_RPL_def ACC_PRESENT_def
          ACC_DPL_MASK_def ACC_DPL_SHIFT_def acc_consts)
  show "example_far =
     loadDesc8_install SegCS 0x0B
       \<lparr> d_limit = 0xFFFF, d_acc = 0x9A02, d_type = 0x1A00, d_base = 0x20000, d_ext = 0 \<rparr> 0x1008
       (this_update SegCS (\<lambda>this. this\<lparr>fStackSwitch := True\<rparr>) (example_prot\<lparr>nStepCycles := - 15\<rparr>))"
    unfolding example_far_def One_nat_def l by (simp add: v example_prot_fields e)
  then show "seg_load 1 example_ops SegCS 0x0B False example_prot = Some (0x20000, example_far)"
    unfolding One_nat_def l by (simp add: v example_prot_fields e)
qed

lemma example_far_seg:
  "sel (segs example_far SegCS) = 0x0B" "base (segs example_far SegCS) = 0x20000"
  "cpl (segs example_far SegCS) = 3" "addrDesc (segs example_far SegCS) = 0x1008"
  "fStackSwitch (segs example_far SegCS) = True"
  unfolding example_far_load(2)
  by (simp_all add: loadDesc8_install_def updateMode_def updateMode_access_def updateMode_load_def
        this_update_def setByte_def Let_def example_prot_fields js_eval CR0_MSW_PE_def SEL_RPL_def)

lemma example_far_faults: "faults example_far = []"
  unfolding example_far_load(2)
  by (simp add: loadDesc8_install_def updateMode_def updateMode_access_def updateMode_load_def
        this_update_def setByte_def Let_def example_prot_fields js_eval CR0_MSW_PE_def SEL_RPL_def)

subsection \<open>Loading a segment register in real mode\<close>

text \<open>
  Claim C7. A segment register is in real mode when its \<open>load\<close> slot holds \<open>loadReal\<close>.
  Then, for every register, every selector \<open>s\<close> and every state, \<open>load(s)\<close> returns
  \<open>(s & 0xFFFF) << 4\<close>, and the state afterwards is the state before with the selector
  of this register set to \<open>s & 0xFFFF\<close> and its base set to the value returned: every
  other field of the register (limit, offMax, acc, type, ext, cpl, dpl, addrDesc, the
  sizes and masks, the method slots), every other register, the memory and the rest of
  the CPU are as before. \<open>s & 0xFFFF\<close> is \<open>s mod 65536\<close> and the base is 16 times that.
\<close>

theorem loadReal_frame:
  assumes "load (segs c who) = loadReal_slot"
  shows "seg_load n X who s fSuppress c =
           Some (js_shl (js_and s 0xffff) 4,
                 c\<lparr>segs := (segs c)(who := (segs c who)\<lparr>sel := js_and s 0xffff,
                                                        base := js_shl (js_and s 0xffff) 4\<rparr>)\<rparr>) \<and>
         js_and s 0xffff = s mod 65536 \<and>
         js_shl (js_and s 0xffff) 4 = 16 * (s mod 65536)"
proof -
  have "js_shl (s mod 65536) 4 = 16 * (s mod 65536)" by (rule js_shl_4) simp_all
  then show ?thesis using assms
    by (simp add: seg_load_def seg_load_with_def loadReal_def this_update_def Let_def js_and_ffff)
qed

text \<open>
  On the example machine in real mode, \<open>CS.load(0xF000)\<close> returns \<open>0xF0000\<close> and leaves
  that in the base, \<open>0xF000\<close> in the selector, and the limit as it was.
\<close>

theorem loadReal_frame_witness:
  "load (segs example_real SegCS) = loadReal_slot \<and>
   map_option fst (seg_load 0 example_ops SegCS 0xF000 False example_real) = Some 0xF0000 \<and>
   base (segs (snd (the (seg_load 0 example_ops SegCS 0xF000 False example_real))) SegCS) = 0xF0000 \<and>
   sel (segs (snd (the (seg_load 0 example_ops SegCS 0xF000 False example_real))) SegCS) = 0xF000 \<and>
   limit (segs (snd (the (seg_load 0 example_ops SegCS 0xF000 False example_real))) SegCS) = 0xFFFF"
  using loadReal_frame[where c = example_real and who = SegCS and n = 0 and X = example_ops
      and s = "0xF000" and fSuppress = False]
  by (simp add: example_real_CS new_X86Seg_def js_and_ffff js_shl_4)

subsection \<open>Writing to an expand-down segment\<close>

text \<open>
  Claim C2, amended. Let a load of a segment register other than CS succeed and leave
  the register in protected mode, with a selector that is not null and a descriptor that
  is a segment descriptor (S set) for writable expand-down data (WRITABLE and EXPDOWN
  set, CODE clear), with limit \<open>L\<close>. Then for every offset \<open>off\<close>, every byte count \<open>cb\<close> and
  both values of \<open>fSuppress\<close>, \<open>checkWrite(off, cb, fSuppress)\<close> returns \<open>(base + off) | 0\<close>
  and changes nothing if \<open>(off >>> 0) + cb > (L >>> 0) + 1\<close>, that is if the last byte of
  the access lies above \<open>L\<close>; otherwise it returns \<open>ADDR_INVALID\<close>, and reports a general
  protection fault with error code 0 unless \<open>fSuppress\<close> is set. The test is the test of
  an expand-up segment, inverted.
\<close>

theorem checkWrite_expand_down:
  assumes role: "seg_id (segs c who) \<noteq> ID_CODE"
      and ld: "seg_load n X who s fl c = Some (r, c')"
      and ok: "r \<noteq> ADDR_INVALID"
      and prot: "load (segs c' who) = loadProt_slot"
      and nonnull: "js_and (sel (segs c' who)) (js_not SEL_RPL) \<noteq> 0"
      and bits: "js_and (acc (segs c' who)) ACC_TYPE_SEG \<noteq> 0"
                "js_and (acc (segs c' who)) ACC_TYPE_CODE = 0"
                "js_and (acc (segs c' who)) ACC_TYPE_EXPDOWN \<noteq> 0"
                "js_and (acc (segs c' who)) ACC_TYPE_WRITABLE \<noteq> 0"
  shows "seg_checkWrite who off cb fSuppress c' =
           (if ToUint32 off + cb > ToUint32 (limit (segs c' who)) + 1
            then (ToInt32 (base (segs c' who) + off), c')
            else (ADDR_INVALID, if \<not> fSuppress then fnFault GP_FAULT 0 False c' else c'))"
proof -
  obtain c0 a where pe: "js_and (regCR0 c0) CR0_MSW_PE \<noteq> 0"
    and c': "c' = loadDesc8_install who (js_and s 0xffff) (loadDesc8_fetch c0 a) a c0"
    using seg_load_installs[OF role ld ok prot] by blast
  have "checkWrite (segs c' who) = checkWriteProtDown_slot"
    unfolding c' using nonnull bits pe
    by (intro install_expand_down) (simp_all add: c' install_fields)
  moreover have "offMax (segs c' who) = ToUint32 (limit (segs c' who)) + 1"
    by (simp add: c' install_fields)
  ultimately show ?thesis by (simp add: checkWrite_down)
qed

text \<open>
  On the example machine in protected mode, \<open>SS.load(0x10)\<close> loads the expand-down
  segment with limit \<open>0x0FFF\<close> and base \<open>0x030000\<close>. A write of two bytes at offset \<open>0x1000\<close>
  is allowed; a write of two bytes at offset \<open>0x0FFE\<close> is refused with a fault.
\<close>

theorem checkWrite_expand_down_witness:
  "seg_id (segs example_prot SegSS) \<noteq> ID_CODE \<and>
   seg_load 1 example_ops SegSS 0x10 False example_prot = Some (0x30000, example_stack) \<and>
   load (segs example_stack SegSS) = loadProt_slot \<and>
   js_and (sel (segs example_stack SegSS)) (js_not SEL_RPL) \<noteq> 0 \<and>
   js_and (acc (segs example_stack SegSS)) ACC_TYPE_SEG \<noteq> 0 \<and>
   js_and (acc (segs example_stack SegSS)) ACC_TYPE_CODE = 0 \<and>
   js_and (acc (segs example_stack SegSS)) ACC_TYPE_EXPDOWN \<noteq> 0 \<and>
   js_and (acc (segs example_stack SegSS)) ACC_TYPE_WRITABLE \<noteq> 0 \<and>
   limit (segs example_stack SegSS) = 0x0FFF \<and>
   seg_checkWrite SegSS 0x1000 2 False example_stack = (0x31000, example_stack) \<and>
   seg_checkWrite SegSS 0x0FFE 2 False example_stack =
     (ADDR_INVALID, fnFault GP_FAULT 0 False example_stack)"
proof -
  have h: "seg_id (segs example_prot SegSS) \<noteq> ID_CODE"
    "(0x30000::int) \<noteq> ADDR_INVALID"
    "js_and (sel (segs example_stack SegSS)) (js_not SEL_RPL) \<noteq> 0"
    "js_and (acc (segs example_stack SegSS)) ACC_TYPE_SEG \<noteq> 0"
    "js_and (acc (segs example_stack SegSS)) ACC_TYPE_CODE = 0"
    "js_and (acc (segs example_stack SegSS)) ACC_TYPE_EXPDOWN \<noteq> 0"
    "js_and (acc (segs example_stack SegSS)) ACC_TYPE_WRITABLE \<noteq> 0"
    by (simp_all add: example_prot_segs new_X86Seg_def example_stack_seg js_eval SEL_RPL_def
          acc_consts ADDR_INVALID_def)
  note t = checkWrite_expand_down[OF h(1) example_stack_load(1) h(2) example_stack_seg(6) h(3-7)]
  show ?thesis
    using t[of "0x1000" 2 False] t[of "0x0FFE" 2 False]
    by (simp add: example_stack_load(1)[unfolded One_nat_def] example_prot_segs new_X86Seg_def
          example_stack_seg js_eval SEL_RPL_def acc_consts)
qed

text \<open>
  Claim C2 as stated fails for accesses of more than one byte: on the same segment,
  with limit \<open>0x0FFF\<close>, a write of two bytes at offset \<open>0x0FFF\<close> is allowed and returns
  \<open>0x030FFF\<close>, although the offset is not above the limit.
\<close>

theorem checkWrite_expand_down_counterexample:
  "seg_load 1 example_ops SegSS 0x10 False example_prot = Some (0x30000, example_stack) \<and>
   js_and (acc (segs example_stack SegSS)) ACC_TYPE_EXPDOWN \<noteq> 0 \<and>
   js_and (acc (segs example_stack SegSS)) ACC_TYPE_CODE = 0 \<and>
   limit (segs example_stack SegSS) = 0x0FFF \<and>
   base (segs example_stack SegSS) = 0x30000 \<and>
   \<not> 0x0FFF > limit (segs example_stack SegSS) \<and>
   seg_checkWrite SegSS 0x0FFF 2 False example_stack = (0x30FFF, example_stack)"
  by (simp add: example_stack_load(1)[unfolded One_nat_def] example_stack_seg checkWrite_down
        js_eval acc_consts)

subsection \<open>Loading CS with a requested privilege level above the current one\<close>

text \<open>
  The guard of lines 644-647. Let CS be in protected mode with \<open>fCall = null\<close>, and let the
  selector \<open>s\<close> name a code segment descriptor (not a gate) and request a privilege level
  \<open>RPL\<close> numerically greater than the current \<open>CPL\<close>. If the privilege level \<open>DPL\<close> of the
  descriptor differs from \<open>CPL\<close>, and the segment is not a conforming one with
  \<open>DPL \<le> CPL\<close>, then \<open>load(s)\<close> returns \<open>ADDR_INVALID\<close>, and the privilege level, the
  selector and the base of CS as well as the memory are as before. \<open>d\<close> is the descriptor
  that \<open>s\<close> names in its table.
\<close>

lemma load_code_refused:
  assumes slot: "load (segs c who) = loadProt_slot"
      and role: "seg_id (segs c who) = ID_CODE"
      and fcall: "fCall (segs c who) = None"
      and d: "d = loadDesc8_fetch c (loadProt_addrDesc c (js_and s 0xffff))"
      and code: "d_type d \<ge> ACC_TYPE_CODE_EXECONLY"
      and rpl: "js_and (js_and s 0xffff) SEL_RPL > cpl (segs c who)"
      and dpl: "js_sar (js_and (d_acc d) ACC_DPL_MASK) ACC_DPL_SHIFT \<noteq> cpl (segs c who)"
      and conf: "js_and (d_acc d) ACC_TYPE_CONFORMING = 0 \<or>
                 js_sar (js_and (d_acc d) ACC_DPL_MASK) ACC_DPL_SHIFT > cpl (segs c who)"
  shows "\<exists>c'. seg_load (Suc n) X who s fl c = Some (ADDR_INVALID, c') \<and>
              cpl (segs c' who) = cpl (segs c who) \<and> sel (segs c' who) = sel (segs c who) \<and>
              base (segs c' who) = base (segs c who) \<and> mem c' = mem c"
proof -
  define c0 where "c0 = (if \<not> fl then c\<lparr>nStepCycles := nStepCycles c - 15\<rparr> else c)"
  have f: "loadDesc8_fetch c0 (loadProt_addrDesc c (js_and s 0xffff)) = d" by (simp add: c0_def d)
  have r0: "seg_id (segs c0 who) = ID_CODE" "fCall (segs c0 who) = None"
    "cpl (segs c0 who) = cpl (segs c who)" "sel (segs c0 who) = sel (segs c who)"
    "base (segs c0 who) = base (segs c who)" "mem c0 = mem c"
    using role fcall by (simp_all add: c0_def)
  have "\<exists>c'. loadDesc8 (Suc n) X who (loadProt_addrDesc c (js_and s 0xffff)) (js_and s 0xffff) fl c0 =
                Some (ADDR_INVALID, c') \<and>
              cpl (segs c' who) = cpl (segs c who) \<and> sel (segs c' who) = sel (segs c who) \<and>
              base (segs c' who) = base (segs c who) \<and> mem c' = mem c"
    using code rpl dpl conf r0
    by (auto simp: Let_def f loadDesc8_code_def this_update_def fault_unless_def fnFault_def)
  then show ?thesis
    using slot
    by (auto simp: seg_load_def seg_load_with_def loadProt_with_def Let_def c0_def
          fault_unless_def fnFault_def simp del: loadDesc8.simps split: prod.splits)
qed

text \<open>
  On the example machine in protected mode CS has \<open>CPL = 0\<close> and \<open>fCall = null\<close>. The
  selector \<open>0x23\<close> names the code segment with \<open>DPL = 3\<close> and requests level 3; the load is
  refused.
\<close>

lemma load_code_refused_example:
  "load (segs example_prot SegCS) = loadProt_slot \<and>
   seg_id (segs example_prot SegCS) = ID_CODE \<and>
   fCall (segs example_prot SegCS) = None \<and>
   cpl (segs example_prot SegCS) = 0 \<and>
   loadDesc8_fetch example_prot (loadProt_addrDesc example_prot (js_and 0x23 0xffff)) =
     \<lparr> d_limit = 0xFFFF, d_acc = 0xFA05, d_type = 0x1A00, d_base = 0x50000, d_ext = 0 \<rparr> \<and>
   js_and (js_and 0x23 0xffff) SEL_RPL = 3 \<and>
   js_sar (js_and 0xFA05 ACC_DPL_MASK) ACC_DPL_SHIFT = 3 \<and>
   js_and 0xFA05 ACC_TYPE_CONFORMING = 0 \<and>
   map_option fst (seg_load 1 example_ops SegCS 0x23 False example_prot) = Some ADDR_INVALID"
proof -
  have a: "loadProt_addrDesc example_prot (js_and 0x23 0xffff) = 0x1020"
    by (simp add: loadProt_addrDesc_def loadProt_table_def example_prot_fields js_eval
          SEL_LDT_def SEL_MASK_def)
  have h: "load (segs example_prot SegCS) = loadProt_slot"
    "seg_id (segs example_prot SegCS) = ID_CODE"
    "fCall (segs example_prot SegCS) = None"
    "cpl (segs example_prot SegCS) = 0"
    by (simp_all add: example_prot_segs new_X86Seg_def)
  have v: "js_and (js_and 0x23 0xffff) SEL_RPL = 3"
    "js_sar (js_and 0xFA05 ACC_DPL_MASK) ACC_DPL_SHIFT = 3"
    "js_and 0xFA05 ACC_TYPE_CONFORMING = 0"
    by (simp_all add: js_eval SEL_RPL_def ACC_DPL_MASK_def ACC_DPL_SHIFT_def acc_consts)
  have "\<exists>c'. seg_load (Suc 0) example_ops SegCS 0x23 False example_prot = Some (ADDR_INVALID, c') \<and>
          cpl (segs c' SegCS) = cpl (segs example_prot SegCS) \<and>
          sel (segs c' SegCS) = sel (segs example_prot SegCS) \<and>
          base (segs c' SegCS) = base (segs example_prot SegCS) \<and> mem c' = mem example_prot"
    by (rule load_code_refused[OF h(1) h(2) h(3) refl])
       (simp_all add: a example_fetch h v ACC_TYPE_CODE_EXECONLY_def)
  then have "map_option fst (seg_load 1 example_ops SegCS 0x23 False example_prot) = Some ADDR_INVALID"
    by auto
  then show ?thesis by (simp add: h v a example_fetch)
qed

text \<open>
  Claim C3: with \<open>fCall = null\<close>, a load of CS with a code segment selector whose \<open>RPL\<close>
  is above \<open>CPL\<close> is to fail, since no change of privilege is allowed then, as the
  comment of the constructor says (lines 91-94). The code does not do so when the
  privilege level of the descriptor equals \<open>CPL\<close>: the guard of line 644 lets the load
  pass, and lines 648-651 and \<open>updateMode\<close> treat it as a return to a less privileged
  segment. On the example machine in protected mode CS has \<open>CPL = 0\<close> and
  \<open>fCall = null\<close>; the selector \<open>0x0B\<close> names the code segment descriptor with \<open>DPL = 0\<close>
  and requests level 3. \<open>CS.load(0x0B)\<close> returns the base \<open>0x020000\<close> instead of
  \<open>ADDR_INVALID\<close>, reports no fault, has switched the stack, and leaves CS with the new
  selector at privilege level 3.
\<close>

theorem load_code_null_fCall_transition:
  "load (segs example_prot SegCS) = loadProt_slot \<and>
   seg_id (segs example_prot SegCS) = ID_CODE \<and>
   fCall (segs example_prot SegCS) = None \<and>
   cpl (segs example_prot SegCS) = 0 \<and>
   js_and 0x0B SEL_RPL = 3 \<and>
   d_type (loadDesc8_fetch example_prot 0x1008) = ACC_TYPE_CODE_READABLE \<and>
   js_sar (js_and (d_acc (loadDesc8_fetch example_prot 0x1008)) ACC_DPL_MASK) ACC_DPL_SHIFT = 0 \<and>
   seg_load 1 example_ops SegCS 0x0B False example_prot = Some (0x20000, example_far) \<and>
   0x20000 \<noteq> ADDR_INVALID \<and>
   faults example_far = [] \<and>
   fStackSwitch (segs example_far SegCS) = True \<and>
   sel (segs example_far SegCS) = 0x0B \<and>
   cpl (segs example_far SegCS) = 3"
  by (simp add: example_prot_segs new_X86Seg_def example_fetch example_far_seg example_far_faults
        example_far_load(1)[unfolded One_nat_def] js_eval SEL_RPL_def ADDR_INVALID_def acc_consts
        ACC_DPL_MASK_def ACC_DPL_SHIFT_def)

subsection \<open>The ACCESSED bit of a loaded descriptor\<close>



end
